theory Spec2Isabelle
  imports Complex_Main "HOL-Library.Product_Lexorder" "HOL-Library.Multiset"
begin

section \<open>Data model of src/js/hungryGames.js\<close>

text \<open>
  A JavaScript number that may be \<open>NaN\<close>. The options set by \<open>toggleOpt\<close> go
  through \<open>Number(value)\<close>, which yields \<open>NaN\<close> for text that is not a numeric
  literal. Infinities and negative zero play no role in the code modelled here.
\<close>

datatype jsnum = NaN | Num rat

text \<open>Comparisons with \<open>NaN\<close> are false, as in JavaScript.\<close>

fun num_lt :: "jsnum \<Rightarrow> jsnum \<Rightarrow> bool" where
  "num_lt (Num a) (Num b) = (a < b)"
| "num_lt _ _ = False"

definition num_gt :: "jsnum \<Rightarrow> jsnum \<Rightarrow> bool" where
  "num_gt a b = num_lt b a"

text \<open>
  \<open>function Player(id, username, avatarURL)\<close> (lines 279-296). User ids are
  Discord snowflakes (decimal strings); they are modelled as naturals. The field
  \<open>state\<close> is one of the strings normal, wounded, zombie, dead.
\<close>

record player =
  p_id :: nat
  p_name :: string
  p_avatarURL :: string
  p_living :: bool
  p_bleeding :: bool
  p_rank :: int
  p_state :: string
  p_kills :: int

definition Player :: "nat \<Rightarrow> string \<Rightarrow> string \<Rightarrow> player" where
  "Player i username url =
     \<lparr>p_id = i, p_name = username, p_avatarURL = url, p_living = True,
      p_bleeding = False, p_rank = 1, p_state = ''normal'', p_kills = 0\<rparr>"

text \<open>
  \<open>function Team(id, name, players)\<close> (lines 298-309); \<open>players\<close> holds user
  ids. The event selector stores a scratch field \<open>numPool\<close> on each team (line 741);
  the constructor leaves it undefined, and it is always written before it is read, so
  it starts at 0 here.
\<close>

record team =
  t_id :: nat
  t_name :: string
  t_players :: "nat list"
  t_rank :: int
  t_numAlive :: int
  t_numPool :: int

definition Team :: "nat \<Rightarrow> string \<Rightarrow> nat list \<Rightarrow> team" where
  "Team i nm ps =
     \<lparr>t_id = i, t_name = nm, t_players = ps, t_rank = 1,
      t_numAlive = int (length ps), t_numPool = 0\<rparr>"

text \<open>
  An event template of hgEvents.json: \<open>{message, victim: {count, outcome, killer},
  attacker: {count, outcome, killer}}\<close>. A negative count encodes "at least that
  many". The outcome is the raw string; the code switches on dies, wounded and thrives and
  treats every other string alike.
\<close>

record side =
  s_count :: int
  s_outcome :: string
  s_killer :: bool

record event =
  ev_message :: string
  ev_victim :: side
  ev_attacker :: side

text \<open>
  An arena event carries a message and its own list of outcome templates. An entry of a
  template list may be null (the code tests \<open>!eventTry\<close>, line 687), hence the
  \<open>option\<close>.
\<close>

record arena_event =
  ar_message :: string
  ar_outcomes :: "event option list"

text \<open>
  The object returned by \<open>makeSingleEvent\<close>: \<open>{message, icons}\<close>. The text
  substitution of the names into the message belongs to the presentation and uses
  \<open>String.prototype.replaceAll\<close>, which this file does not define; \<open>fe_message\<close>
  holds the template text, \<open>fe_icons\<close> the icon URLs.
\<close>

record final_event =
  fe_message :: string
  fe_icons :: "string list"

text \<open>\<open>defaultOptions\<close> (lines 16-31).\<close>

record options =
  arenaEvents :: bool
  resurrection :: bool
  includeBots :: bool
  allowNoVictors :: bool
  teamSize :: jsnum
  teammatesCollaborate :: bool
  mentionVictor :: bool
  mentionAll :: bool
  mentionEveryoneAtStart :: bool
  delayEvents :: jsnum
  delayDays :: jsnum
  probabilityOfResurrect :: jsnum
  probabilityOfArenaEvent :: jsnum
  probabilityOfBleedToDeath :: jsnum

definition defaultOptions :: options where
  "defaultOptions =
     \<lparr>arenaEvents = True, resurrection = False, includeBots = False,
      allowNoVictors = True, teamSize = Num 0, teammatesCollaborate = True,
      mentionVictor = True, mentionAll = False, mentionEveryoneAtStart = False,
      delayEvents = Num 3500, delayDays = Num 7000,
      probabilityOfResurrect = Num (1 / 10), probabilityOfArenaEvent = Num (1 / 4),
      probabilityOfBleedToDeath = Num (1 / 2)\<rparr>"

record custom_events =
  c_bloodbath :: "event option list"
  c_player :: "event option list"
  c_arena :: "arena_event option list"

text \<open>
  One entry \<open>games[id]\<close>, flattened: \<open>gname\<close>, \<open>inProgress\<close>,
  \<open>includedUsers\<close>, \<open>teams\<close>, \<open>ended\<close>, \<open>numAlive\<close> are the fields of
  \<open>games[id].currentGame\<close>; \<open>dayNum\<close>, \<open>dayState\<close>, \<open>dayEvents\<close> are
  \<open>currentGame.day.num\<close>, \<open>.state\<close>, \<open>.events\<close>. \<open>hasCurrentGame\<close> is false
  when \<open>currentGame\<close> has been deleted (\<open>resetGame\<close>, line 452). \<open>interval\<close>
  tells whether \<open>intervals[id]\<close> holds a running reveal timer. An undefined
  \<open>games[id]\<close> is \<open>None :: game option\<close>.
\<close>

record game =
  excludedUsers :: "nat list"
  options :: options
  customEvents :: custom_events
  autoPlay :: bool
  hasCurrentGame :: bool
  gname :: string
  inProgress :: bool
  includedUsers :: "player list"
  teams :: "team list"
  ended :: bool
  dayNum :: int
  dayState :: int
  dayEvents :: "final_event list"
  numAlive :: int
  interval :: bool

text \<open>
  The object literal of the last branch of \<open>createGame\<close> (lines 341-356), for a guild
  name and the players that \<open>getAllPlayers\<close> returned; \<open>formTeams\<close> leaves
  \<open>teams\<close> empty there because the default team size is 0.
\<close>

definition freshGame :: "string \<Rightarrow> player list \<Rightarrow> game" where
  "freshGame guild users =
     \<lparr>excludedUsers = [], options = defaultOptions,
      customEvents = \<lparr>c_bloodbath = [], c_player = [], c_arena = []\<rparr>,
      autoPlay = False, hasCurrentGame = True,
      gname = guild @ [CHR 0x27] @ ''s Hungry Games'', inProgress = False,
      includedUsers = users, teams = [], ended = False,
      dayNum = 0, dayState = 0, dayEvents = [],
      numAlive = int (length users), interval = False\<rparr>"

text \<open>
  The module-level template tables read from hgEvents.json (lines 49-51, 58-72), and the
  one fact about the rendered text that the simulation depends on: whether the message
  of an event, after the names have been substituted, contains the marker \<open>{dead}\<close>
  (line 1000). It is a parameter because the substitution uses \<open>replaceAll\<close>, defined
  outside this file; its arguments are the template text, the victims, the attackers and
  the mention flag.
\<close>

record env =
  defaultBloodbathEvents :: "event option list"
  defaultPlayerEvents :: "event option list"
  defaultArenaEvents :: "arena_event option list"
  mentionsDead :: "string \<Rightarrow> player list \<Rightarrow> player list \<Rightarrow> bool \<Rightarrow> bool"

section \<open>JavaScript array helpers\<close>

text \<open>\<open>Array.prototype.findIndex\<close>: the first index whose element satisfies the
  test, -1 when there is none.\<close>

fun findIndex :: "('a \<Rightarrow> bool) \<Rightarrow> 'a list \<Rightarrow> int" where
  "findIndex P [] = -1"
| "findIndex P (x # xs) =
     (if P x then 0 else (let i = findIndex P xs in if i < 0 then -1 else i + 1))"

text \<open>
  \<open>arr.splice(start, 1)\<close>: a negative start counts from the end (clamped at 0), a
  start beyond the end removes nothing. The result is the removed element, if any, and
  the array that is left.
\<close>

definition splice1 :: "int \<Rightarrow> 'a list \<Rightarrow> 'a option \<times> 'a list" where
  "splice1 start xs =
     (let len = int (length xs);
          s = (if start < 0 then max (len + start) 0 else min start len);
          k = nat s
      in if k < length xs then (Some (xs ! k), take k xs @ drop (Suc k) xs)
         else (None, xs))"

text \<open>\<open>str.split(sep)\<close> for a one-character separator.\<close>

fun split_str :: "char \<Rightarrow> string \<Rightarrow> string list" where
  "split_str sep [] = [[]]"
| "split_str sep (c # cs) =
     (if c = sep then [] # split_str sep cs
      else (case split_str sep cs of
              w # ws \<Rightarrow> (c # w) # ws
            | [] \<Rightarrow> [[c]]))"

text \<open>\<open>arr[i]\<close>, undefined out of range.\<close>

definition at_index :: "'a list \<Rightarrow> nat \<Rightarrow> 'a option" where
  "at_index xs i = (if i < length xs then Some (xs ! i) else None)"

section \<open>Random source\<close>

text \<open>
  \<open>Math.random()\<close> returns a number in [0, 1). The random source is a stream of
  integers \<open>k\<close>, the draw being \<open>(k mod 2^53) / 2^53\<close>; a cursor counts the draws
  made so far. Draws are exact rationals here: the rounding of the double-precision
  products and sums is not modelled.
\<close>

type_synonym rng = "nat \<Rightarrow> int"

definition Math_random :: "rng \<Rightarrow> nat \<Rightarrow> rat" where
  "Math_random rnd c = of_int (rnd c mod 2 ^ 53) / 2 ^ 53"

text \<open>\<open>Math.floor(Math.random() * n)\<close>.\<close>

definition random_index :: "rat \<Rightarrow> nat \<Rightarrow> nat" where
  "random_index r n = nat \<lfloor>r * of_nat n\<rfloor>"

text \<open>\<open>Math.random() < p\<close> for an option value \<open>p\<close>.\<close>

definition random_below :: "rat \<Rightarrow> jsnum \<Rightarrow> bool" where
  "random_below r p = num_lt (Num r) p"

text \<open>
  \<open>weightedRand\<close> (lines 963-969) over \<open>multiEventUserDistribution\<close> (lines 36-43):
  the keys 1, 2, 3, 4, 6, 7 are visited in ascending order with the running sums 0.66,
  0.93, 0.96, 0.98, 0.995, 1. The source falls off the loop (returning undefined) only
  if the draw exceeds the total; the total is 1 and every draw is below 1, so the last
  key takes every remaining draw.
\<close>

definition weightedRand :: "rat \<Rightarrow> nat" where
  "weightedRand r =
     (if r \<le> 66 / 100 then 1
      else if r \<le> 93 / 100 then 2
      else if r \<le> 96 / 100 then 3
      else if r \<le> 98 / 100 then 4
      else if r \<le> 995 / 1000 then 6
      else 7)"

section \<open>Options: \<open>toggleOpt\<close> (lines 1428-1489)\<close>

datatype jstype = TNumber | TBoolean | TFunction | TObject

text \<open>
  \<open>typeof defaultOptions[option]\<close>: the type of the default value for the fourteen
  option names; a property inherited from \<open>Object.prototype\<close> is a function (or an
  object for \<open>__proto__\<close>); every other name is undefined (\<open>None\<close>).
\<close>

definition typeofDefaultOption :: "string \<Rightarrow> jstype option" where
  "typeofDefaultOption opt =
     (if opt \<in> set [''arenaEvents'', ''resurrection'', ''includeBots'', ''allowNoVictors'',
                     ''teammatesCollaborate'', ''mentionVictor'', ''mentionAll'',
                     ''mentionEveryoneAtStart'']
      then Some TBoolean
      else if opt \<in> set [''teamSize'', ''delayEvents'', ''delayDays'',
                          ''probabilityOfResurrect'', ''probabilityOfArenaEvent'',
                          ''probabilityOfBleedToDeath'']
      then Some TNumber
      else if opt \<in> set [''constructor'', ''toString'', ''toLocaleString'', ''valueOf'',
                          ''hasOwnProperty'', ''isPrototypeOf'', ''propertyIsEnumerable'',
                          ''__defineGetter__'', ''__defineSetter__'', ''__lookupGetter__'',
                          ''__lookupSetter__'']
      then Some TFunction
      else if opt = ''__proto__'' then Some TObject
      else None)"

text \<open>\<open>typeof\<close> of a JavaScript number: \<open>NaN\<close> is a number too.\<close>

definition typeof_num :: "jsnum \<Rightarrow> jstype" where
  "typeof_num v = TNumber"

text \<open>\<open>games[id].options[option] = value\<close> for a numeric and for a boolean option.\<close>

definition setNumberOption :: "string \<Rightarrow> jsnum \<Rightarrow> options \<Rightarrow> options" where
  "setNumberOption opt v os =
     (if opt = ''teamSize'' then os\<lparr>teamSize := v\<rparr>
      else if opt = ''delayEvents'' then os\<lparr>delayEvents := v\<rparr>
      else if opt = ''delayDays'' then os\<lparr>delayDays := v\<rparr>
      else if opt = ''probabilityOfResurrect'' then os\<lparr>probabilityOfResurrect := v\<rparr>
      else if opt = ''probabilityOfArenaEvent'' then os\<lparr>probabilityOfArenaEvent := v\<rparr>
      else if opt = ''probabilityOfBleedToDeath'' then os\<lparr>probabilityOfBleedToDeath := v\<rparr>
      else os)"

definition setBooleanOption :: "string \<Rightarrow> bool \<Rightarrow> options \<Rightarrow> options" where
  "setBooleanOption opt v os =
     (if opt = ''arenaEvents'' then os\<lparr>arenaEvents := v\<rparr>
      else if opt = ''resurrection'' then os\<lparr>resurrection := v\<rparr>
      else if opt = ''includeBots'' then os\<lparr>includeBots := v\<rparr>
      else if opt = ''allowNoVictors'' then os\<lparr>allowNoVictors := v\<rparr>
      else if opt = ''teammatesCollaborate'' then os\<lparr>teammatesCollaborate := v\<rparr>
      else if opt = ''mentionVictor'' then os\<lparr>mentionVictor := v\<rparr>
      else if opt = ''mentionAll'' then os\<lparr>mentionAll := v\<rparr>
      else if opt = ''mentionEveryoneAtStart'' then os\<lparr>mentionEveryoneAtStart := v\<rparr>
      else os)"

text \<open>
  The replies of \<open>toggleOpt\<close>, in the order of the source: "You must create a game
  first before editing settings!", the listing of the current options, "You must end
  this game before changing settings.", "That is not a valid option to change!", "That
  is not a valid value for (option), which requires a number.", "... which requires true
  or false.", "Set (option) to (value) from (old)", the hint about "teams reset", and
  "Changing the value of this option is not added yet.".
\<close>

datatype opt_reply =
    MustCreateGame
  | CurrentOptions
  | MustEndGame
  | NotAValidOption
  | InvalidNumber string
  | InvalidBoolean string
  | OptionSet string
  | TeamsResetHint
  | NotAddedYet

text \<open>
  \<open>toggleOpt\<close>. \<open>txt\<close> is \<open>msg.text\<close>; \<open>Number\<close> is the JavaScript
  conversion of the second word (undefined when there is none) to a number, a parameter
  of the model. The result is the list of replies and the new \<open>games[id]\<close>.
\<close>

definition toggleOpt ::
  "(string option \<Rightarrow> jsnum) \<Rightarrow> string \<Rightarrow> game option \<Rightarrow> opt_reply list \<times> game option" where
  "toggleOpt Number txt G =
     (let opt = at_index (split_str CHR '' '' txt) 0;
          val = at_index (split_str CHR '' '' txt) 1
      in case G of
           None \<Rightarrow> ([MustCreateGame], G)
         | Some g \<Rightarrow>
             if \<not> hasCurrentGame g then ([MustCreateGame], G)
             else (case opt of
                 None \<Rightarrow> ([CurrentOptions], G)
               | Some option \<Rightarrow>
                   if length option = 0 then ([CurrentOptions], G)
                   else if inProgress g then ([MustEndGame], G)
                   else (case typeofDefaultOption option of
                       None \<Rightarrow> ([NotAValidOption], G)
                     | Some TNumber \<Rightarrow>
                         (let v = Number val
                          in if typeof_num v \<noteq> TNumber then ([InvalidNumber option], G)
                             else ([OptionSet option] @
                                     (if option = ''teamSize'' then [TeamsResetHint] else []),
                                   Some (g\<lparr>options := setNumberOption option v (options g)\<rparr>)))
                     | Some TBoolean \<Rightarrow>
                         (if val = Some ''true'' \<or> val = Some ''false''
                          then ([OptionSet option],
                                Some (g\<lparr>options :=
                                   setBooleanOption option (val = Some ''true'') (options g)\<rparr>))
                          else ([InvalidBoolean option], G))
                     | Some _ \<Rightarrow> ([NotAddedYet], G))))"

section \<open>Effects on players (lines 812-860)\<close>

text \<open>
  The living pool \<open>userPool\<close> and the list \<open>effectedUsers\<close> hold references to
  the objects of \<open>includedUsers\<close>; a reference is the position of the object in
  \<open>includedUsers\<close> (the array is not reordered during a day). An entry of
  \<open>effectedUsers\<close> is \<open>None\<close> where the source pushed \<open>undefined\<close>.
  \<open>None\<close> as a result stands for the TypeError of reading a property of undefined.
\<close>

definition effectUser :: "game \<Rightarrow> nat option list \<Rightarrow> nat \<Rightarrow> int \<Rightarrow> (nat \<times> game) option" where
  "effectUser g effectedUsers i kills =
     (case at_index effectedUsers i of
        Some (Some u) \<Rightarrow>
          (case at_index (includedUsers g) u of
             None \<Rightarrow> None
           | Some eu \<Rightarrow>
               (let users = includedUsers g;
                    index = findIndex (\<lambda>obj. p_id obj = p_id eu) users
                in if index < 0 then None
                   else (let j = nat index;
                             users1 = (if p_state (users ! j) = ''wounded''
                                       then users[j := (users ! j)\<lparr>p_bleeding := True\<rparr>]
                                       else users);
                             users2 = users1[j := (users1 ! j)
                                         \<lparr>p_kills := p_kills (users1 ! j) + kills\<rparr>]
                         in Some (j, g\<lparr>includedUsers := users2\<rparr>))))
      | _ \<Rightarrow> None)"

text \<open>\<open>teams.find\<close>/\<open>findIndex\<close> of the team whose player list contains the id.\<close>

definition findTeam :: "team list \<Rightarrow> nat \<Rightarrow> int" where
  "findTeam ts uid = findIndex (\<lambda>team. findIndex (\<lambda>obj. uid = obj) (t_players team) > -1) ts"

text \<open>
  \<open>team.numAlive--\<close> and, when the team is wiped out, \<open>team.rank = teamsLeft + 1\<close>
  (lines 841-848 and 923-930).
\<close>

definition teamMemberDied :: "team list \<Rightarrow> nat \<Rightarrow> team list" where
  "teamMemberDied ts ti =
     (let team = (ts ! ti)\<lparr>t_numAlive := t_numAlive (ts ! ti) - 1\<rparr>;
          ts1 = ts[ti := team]
      in if t_numAlive team = 0
         then ts1[ti := team\<lparr>t_rank := int (length (filter (\<lambda>obj. t_numAlive obj > 0) ts1)) + 1\<rparr>]
         else ts1)"

definition killUser :: "game \<Rightarrow> nat option list \<Rightarrow> nat \<Rightarrow> int \<Rightarrow> game option" where
  "killUser g effectedUsers i k =
     (case effectUser g effectedUsers i k of
        None \<Rightarrow> None
      | Some (index, g1) \<Rightarrow>
          (let users = includedUsers g1;
               dead = (users ! index)\<lparr>p_living := False, p_bleeding := False,
                                      p_state := ''dead'', p_rank := numAlive g1\<rparr>;
               g2 = g1\<lparr>includedUsers := users[index := dead], numAlive := numAlive g1 - 1\<rparr>
           in if num_gt (teamSize (options g2)) (Num 0)
              then (let ti = findTeam (teams g2) (p_id dead)
                    in if ti < 0 then Some g2
                       else Some (g2\<lparr>teams := teamMemberDied (teams g2) (nat ti)\<rparr>))
              else Some g2))"

definition woundUser :: "game \<Rightarrow> nat option list \<Rightarrow> nat \<Rightarrow> int \<Rightarrow> game option" where
  "woundUser g effectedUsers i k =
     (case effectUser g effectedUsers i k of
        None \<Rightarrow> None
      | Some (index, g1) \<Rightarrow>
          Some (g1\<lparr>includedUsers := (includedUsers g1)
                    [index := (includedUsers g1 ! index)\<lparr>p_state := ''wounded''\<rparr>]\<rparr>))"

definition restoreUser :: "game \<Rightarrow> nat option list \<Rightarrow> nat \<Rightarrow> int \<Rightarrow> game option" where
  "restoreUser g effectedUsers i k =
     (case effectUser g effectedUsers i k of
        None \<Rightarrow> None
      | Some (index, g1) \<Rightarrow>
          Some (g1\<lparr>includedUsers := (includedUsers g1)
                    [index := (includedUsers g1 ! index)\<lparr>p_state := ''normal''\<rparr>]\<rparr>))"

text \<open>The \<open>switch\<close> on the outcome (lines 865-878 and 883-896).\<close>

definition applyOutcome :: "game \<Rightarrow> nat option list \<Rightarrow> string \<Rightarrow> nat \<Rightarrow> int \<Rightarrow> game option" where
  "applyOutcome g effectedUsers outcome i numKills =
     (if outcome = ''dies'' then killUser g effectedUsers i numKills
      else if outcome = ''wounded'' then woundUser g effectedUsers i numKills
      else if outcome = ''thrives'' then restoreUser g effectedUsers i numKills
      else map_option snd (effectUser g effectedUsers i numKills))"

text \<open>
  One of the two \<open>for\<close> loops over the affected users, for the positions \<open>is\<close>.
  \<open>Inl\<close> is the state at the moment a TypeError is thrown, \<open>Inr\<close> the state after
  the loop.
\<close>

fun applyEffects :: "game \<Rightarrow> nat option list \<Rightarrow> string \<Rightarrow> int \<Rightarrow> nat list \<Rightarrow> game + game" where
  "applyEffects g effectedUsers outcome numKills [] = Inr g"
| "applyEffects g effectedUsers outcome numKills (i # is) =
     (case applyOutcome g effectedUsers outcome i numKills of
        None \<Rightarrow> Inl g
      | Some g' \<Rightarrow> applyEffects g' effectedUsers outcome numKills is)"

section \<open>Final events: \<open>makeSingleEvent\<close> (lines 984-1024)\<close>

definition isDigit :: "char \<Rightarrow> bool" where
  "isDigit ch = (ch \<in> set ''0123456789'')"

text \<open>\<open>url.replace(/\?size=[0-9]*/, "")\<close>: the first match only.\<close>

fun stripSize :: "string \<Rightarrow> string" where
  "stripSize [] = []"
| "stripSize (ch # cs) =
     (if take 6 (ch # cs) = ''?size='' then dropWhile isDigit (drop 6 (ch # cs))
      else ch # stripSize cs)"

definition getMiniIcons :: "player list \<Rightarrow> string list" where
  "getMiniIcons users = map (\<lambda>obj. stripSize (p_avatarURL obj) @ ''?size=32'') users"

text \<open>The objects behind a list of references; \<open>None\<close> if one of them is undefined.\<close>

fun derefs :: "'a list \<Rightarrow> nat option list \<Rightarrow> 'a list option" where
  "derefs xs [] = Some []"
| "derefs xs (None # rs) = None"
| "derefs xs (Some u # rs) =
     (case at_index xs u of
        None \<Rightarrow> None
      | Some x \<Rightarrow> map_option ((#) x) (derefs xs rs))"

text \<open>
  \<open>makeSingleEvent\<close>: the victims are the first \<open>numVictim\<close> affected users, the
  attackers the next \<open>numAttacker\<close>. Formatting the names throws on an undefined
  entry (\<open>None\<close>). When the rendered message contains \<open>{dead}\<close>, one call of
  \<open>weightedRand\<close> consumes a random draw (line 1004). The result is the event and
  the cursor of the random source.
\<close>

definition makeSingleEvent ::
  "env \<Rightarrow> game \<Rightarrow> string \<Rightarrow> nat option list \<Rightarrow> int \<Rightarrow> int \<Rightarrow> bool \<Rightarrow> nat
     \<Rightarrow> (final_event \<times> nat) option" where
  "makeSingleEvent env g msg effectedUsers numVictim numAttacker mention c =
     (let effectedVictims = take (nat numVictim) effectedUsers;
          effectedAttackers = take (nat numAttacker) (drop (nat numVictim) effectedUsers)
      in case derefs (includedUsers g) effectedVictims of
           None \<Rightarrow> None
         | Some vs \<Rightarrow>
             (case derefs (includedUsers g) effectedAttackers of
                None \<Rightarrow> None
              | Some as \<Rightarrow>
                  Some (\<lparr>fe_message = msg, fe_icons = getMiniIcons (as @ vs)\<rparr>,
                        if mentionsDead env msg vs as mention then c + 1 else c)))"

section \<open>Event selection (lines 677-767)\<close>

text \<open>
  The \<open>do ... while\<close> loop of lines 719-722. The first argument is fuel: the loop
  runs until the random draws give counts that fit the pool, which no bound guarantees.
  The result is \<open>(numAttacker, numVictim, cursor)\<close>.
\<close>

fun redrawCounts ::
  "nat \<Rightarrow> rng \<Rightarrow> bool \<Rightarrow> bool \<Rightarrow> int \<Rightarrow> int \<Rightarrow> int \<Rightarrow> int \<Rightarrow> nat \<Rightarrow> nat
     \<Rightarrow> (int \<times> int \<times> nat) option" where
  "redrawCounts 0 rnd multiAttacker multiVictim attackerMin victimMin numAttacker numVictim
      poolLen c = None"
| "redrawCounts (Suc n) rnd multiAttacker multiVictim attackerMin victimMin numAttacker
      numVictim poolLen c =
     (let numAttacker1 = (if multiAttacker
                          then int (weightedRand (Math_random rnd c)) + (attackerMin - 1)
                          else numAttacker);
          c1 = (if multiAttacker then c + 1 else c);
          numVictim1 = (if multiVictim
                        then int (weightedRand (Math_random rnd c1)) + (victimMin - 1)
                        else numVictim);
          c2 = (if multiVictim then c1 + 1 else c1)
      in if numAttacker1 + numVictim1 > int poolLen
         then redrawCounts n rnd multiAttacker multiVictim attackerMin victimMin numAttacker1
                numVictim1 poolLen c2
         else Some (numAttacker1, numVictim1, c2))"

text \<open>
  Lines 727-746: the number of members of a team that are in the pool and living is
  stored in \<open>team.numPool\<close>; \<open>largestTeam.size\<close> is the running maximum starting
  from 0, \<open>numTeams\<close> counts the teams with a member in the pool.
\<close>

definition numPoolOf :: "player list \<Rightarrow> nat list \<Rightarrow> team \<Rightarrow> int" where
  "numPoolOf users userPool team =
     int (length (filter
       (\<lambda>player. findIndex (\<lambda>u. p_id (users ! u) = player \<and> p_living (users ! u)) userPool > -1)
       (t_players team)))"

definition countTeams :: "player list \<Rightarrow> nat list \<Rightarrow> team list \<Rightarrow> team list" where
  "countTeams users userPool ts = map (\<lambda>team. team\<lparr>t_numPool := numPoolOf users userPool team\<rparr>) ts"

definition largestTeamSize :: "team list \<Rightarrow> int" where
  "largestTeamSize ts =
     foldl (\<lambda>size team. if t_numPool team > size then t_numPool team else size) 0 ts"

definition numTeamsInPool :: "team list \<Rightarrow> int" where
  "numTeamsInPool ts = int (length (filter (\<lambda>team. t_numPool team > 0) ts))"

text \<open>
  What one pass through the head of the \<open>while\<close> body decides: \<open>Rejected\<close> is a
  \<open>continue\<close> (with the teams, whose \<open>numPool\<close> may have been rewritten),
  \<open>Aborted\<close> the failure after more than 100 passes, \<open>Accepted\<close> the template and
  its resolved \<open>numVictim\<close> and \<open>numAttacker\<close>. Each carries the cursor of the
  random source.
\<close>

datatype selection =
    Rejected "team list" nat
  | Aborted nat
  | Accepted event int int "team list" nat
  | SelectionUnfinished

text \<open>Lines 761-767.\<close>

definition allDeadCheck :: "game \<Rightarrow> event \<Rightarrow> int \<Rightarrow> int \<Rightarrow> bool" where
  "allDeadCheck g eventTry numVictim numAttacker =
     (if \<not> allowNoVictors (options g)
      then (let numRemaining = numAlive g;
                numRemaining1 = (if s_outcome (ev_victim eventTry) = ''dies''
                                 then numRemaining - numVictim else numRemaining);
                numRemaining2 = (if s_outcome (ev_attacker eventTry) = ''dies''
                                 then numRemaining1 - numAttacker else numRemaining1)
            in numRemaining2 < 1)
      else False)"

text \<open>
  Lines 678-767; \<open>loop\<close> is the counter after \<open>loop++\<close>, \<open>userEventPool\<close> the
  template set of the day, \<open>userPool\<close> the living players not yet used today.
\<close>

definition selectEvent ::
  "nat \<Rightarrow> rng \<Rightarrow> game \<Rightarrow> event option list \<Rightarrow> nat list \<Rightarrow> nat \<Rightarrow> nat \<Rightarrow> selection" where
  "selectEvent fuel rnd g userEventPool userPool loop c =
     (let eventIndex = random_index (Math_random rnd c) (length userEventPool);
          c1 = c + 1
      in if eventIndex \<ge> length userEventPool then Rejected (teams g) c1
         else (case userEventPool ! eventIndex of
             None \<Rightarrow> Rejected (teams g) c1
           | Some eventTry \<Rightarrow>
               (let numAttacker = s_count (ev_attacker eventTry);
                    numVictim = s_count (ev_victim eventTry);
                    eventEffectsNumMin =
                      (if numVictim < 0 then - numVictim else numVictim) +
                      (if numAttacker < 0 then - numAttacker else numAttacker)
                in if loop > 100 then Aborted c1
                   else if eventEffectsNumMin > int (length userPool) then Rejected (teams g) c1
                   else (let multiAttacker = numAttacker < 0;
                             multiVictim = numVictim < 0;
                             attackerMin = - numAttacker;
                             victimMin = - numVictim
                         in case (if multiAttacker \<or> multiVictim
                                  then redrawCounts fuel rnd multiAttacker multiVictim attackerMin
                                         victimMin numAttacker numVictim (length userPool) c1
                                  else Some (numAttacker, numVictim, c1)) of
                              None \<Rightarrow> SelectionUnfinished
                            | Some (numAttacker', numVictim', c2) \<Rightarrow>
                                (if teammatesCollaborate (options g) \<and>
                                    num_gt (teamSize (options g)) (Num 0)
                                 then (let ts = countTeams (includedUsers g) userPool (teams g);
                                           largest = largestTeamSize ts
                                       in if numTeamsInPool ts < 2 \<and>
                                             (s_outcome (ev_attacker eventTry) = ''dies'' \<or>
                                              s_outcome (ev_victim eventTry) = ''dies'')
                                          then Rejected ts c2
                                          else if \<not> ((numAttacker' \<le> largest \<and>
                                                       numVictim' \<le> int (length userPool) - largest) \<or>
                                                      (numVictim' \<le> largest \<and>
                                                       numAttacker' \<le> int (length userPool) - largest))
                                          then Rejected ts c2
                                          else if allDeadCheck g eventTry numVictim' numAttacker'
                                          then Rejected ts c2
                                          else Accepted eventTry numVictim' numAttacker' ts c2)
                                 else if allDeadCheck g eventTry numVictim' numAttacker'
                                 then Rejected (teams g) c2
                                 else Accepted eventTry numVictim' numAttacker' (teams g) c2)))))"

section \<open>Choosing the participants and applying the event (lines 772-904)\<close>

text \<open>Lines 806-809: uniform draws from the pool, without replacement.\<close>

fun pickRandomUsers :: "rng \<Rightarrow> nat \<Rightarrow> nat list \<Rightarrow> nat \<Rightarrow> nat option list \<times> nat list \<times> nat" where
  "pickRandomUsers rnd 0 userPool c = ([], userPool, c)"
| "pickRandomUsers rnd (Suc k) userPool c =
     (let userIndex = random_index (Math_random rnd c) (length userPool);
          (x, pool1) = splice1 (int userIndex) userPool;
          (xs, pool2, c') = pickRandomUsers rnd k pool1 (c + 1)
      in (x # xs, pool2, c'))"

text \<open>Lines 790-799: the first pool member on (or off) the chosen team.\<close>

definition findMatching :: "player list \<Rightarrow> team list \<Rightarrow> int \<Rightarrow> nat list \<Rightarrow> bool \<Rightarrow> int" where
  "findMatching users ts validTeam userPool match =
     findIndex (\<lambda>u. let teamId = findTeam ts (p_id (users ! u))
                    in if match then teamId = validTeam else teamId \<noteq> validTeam) userPool"

text \<open>Lines 800-804, for the positions \<open>is\<close> of the loop variable.\<close>

fun pickTeamUsers ::
  "player list \<Rightarrow> team list \<Rightarrow> int \<Rightarrow> bool \<Rightarrow> int \<Rightarrow> nat list \<Rightarrow> nat list
     \<Rightarrow> nat option list \<times> nat list" where
  "pickTeamUsers users ts validTeam isAttacker numVictim [] userPool = ([], userPool)"
| "pickTeamUsers users ts validTeam isAttacker numVictim (i # is) userPool =
     (let userIndex = findMatching users ts validTeam userPool
                        ((int i < numVictim \<and> \<not> isAttacker) \<or> (int i \<ge> numVictim \<and> isAttacker));
          (x, pool1) = splice1 userIndex userPool;
          (xs, pool2) = pickTeamUsers users ts validTeam isAttacker numVictim is pool1
      in (x # xs, pool2))"

text \<open>The two tests of the \<open>findIndex\<close> callback of lines 777-789.\<close>

definition fitsAsAttackers :: "int \<Rightarrow> int \<Rightarrow> nat \<Rightarrow> team \<Rightarrow> bool" where
  "fitsAsAttackers numAttacker numVictim poolLen team =
     (numAttacker \<le> t_numPool team \<and> numVictim \<le> int poolLen - t_numPool team)"

definition fitsAsVictims :: "int \<Rightarrow> int \<Rightarrow> nat \<Rightarrow> team \<Rightarrow> bool" where
  "fitsAsVictims numAttacker numVictim poolLen team =
     (numVictim \<le> t_numPool team \<and> numAttacker \<le> int poolLen - t_numPool team)"

text \<open>
  Lines 772-810: \<open>effectedUsers\<close>, the pool that is left, and the cursor.
  \<open>isAttacker\<close> is set by the callback at the team where the search stops: true when
  the first test holds there, false otherwise (and false when no team is found).
\<close>

definition chooseUsers ::
  "rng \<Rightarrow> game \<Rightarrow> nat list \<Rightarrow> int \<Rightarrow> int \<Rightarrow> nat \<Rightarrow> nat option list \<times> nat list \<times> nat" where
  "chooseUsers rnd g userPool numVictim numAttacker c =
     (if teammatesCollaborate (options g) \<and> num_gt (teamSize (options g)) (Num 0)
      then (let poolLen = length userPool;
                validTeam = findIndex (\<lambda>team. fitsAsAttackers numAttacker numVictim poolLen team \<or>
                                               fitsAsVictims numAttacker numVictim poolLen team)
                              (teams g);
                isAttacker = (validTeam \<ge> 0 \<and>
                              fitsAsAttackers numAttacker numVictim poolLen (teams g ! nat validTeam));
                (effectedUsers, pool1) =
                   pickTeamUsers (includedUsers g) (teams g) validTeam isAttacker numVictim
                     [0..<nat (numAttacker + numVictim)] userPool
            in (effectedUsers, pool1, c))
      else pickRandomUsers rnd (nat (numAttacker + numVictim)) userPool c)"

text \<open>
  Lines 772-904 for an accepted template. The resolved counts are never negative, so
  the two \<open>for\<close> loops run over the positions \<open>0 .. numVictim - 1\<close> and
  \<open>numVictim .. numVictim + numAttacker - 1\<close>. \<open>Inl\<close> is the state when a
  TypeError is thrown; \<open>Inr\<close> is the state, the pool that is left and the cursor.
\<close>

definition applyEvent ::
  "env \<Rightarrow> rng \<Rightarrow> game \<Rightarrow> nat list \<Rightarrow> event \<Rightarrow> int \<Rightarrow> int \<Rightarrow> nat
     \<Rightarrow> (game \<times> nat) + (game \<times> nat list \<times> nat)" where
  "applyEvent env rnd g userPool eventTry numVictim numAttacker c =
     (let (effectedUsers, pool1, c1) = chooseUsers rnd g userPool numVictim numAttacker c;
          victimKills = (if s_killer (ev_victim eventTry) then numAttacker else 0);
          attackerKills = (if s_killer (ev_attacker eventTry) then numVictim else 0)
      in case applyEffects g effectedUsers (s_outcome (ev_victim eventTry)) victimKills
                [0..<nat numVictim] of
           Inl g1 \<Rightarrow> Inl (g1, c1)
         | Inr g1 \<Rightarrow>
             (case applyEffects g1 effectedUsers (s_outcome (ev_attacker eventTry)) attackerKills
                     [nat numVictim..<nat (numVictim + numAttacker)] of
                Inl g2 \<Rightarrow> Inl (g2, c1)
              | Inr g2 \<Rightarrow>
                  (case makeSingleEvent env g2 (ev_message eventTry) effectedUsers numVictim
                          numAttacker (mentionAll (options g2)) c1 of
                     None \<Rightarrow> Inl (g2, c1)
                   | Some (fe, c2) \<Rightarrow>
                       Inr (g2\<lparr>dayEvents := dayEvents g2 @ [fe]\<rparr>, pool1, c2))))"

section \<open>The event loop (lines 675-905)\<close>

datatype loop_result =
    LoopDone game nat
  | LoopAborted game nat
  | LoopThrown game nat
  | LoopUnfinished game nat

text \<open>
  \<open>while (userPool.length > 0)\<close>. The first argument is fuel, one unit per pass;
  the second is the fuel given to the re-draw loop in each pass. \<open>loop\<close> is the
  counter before \<open>loop++\<close>. \<open>LoopAborted\<close> is the \<open>return\<close> of line 708,
  after \<open>day.state = 0\<close>.
\<close>

fun eventLoop ::
  "nat \<Rightarrow> nat \<Rightarrow> env \<Rightarrow> rng \<Rightarrow> game \<Rightarrow> event option list \<Rightarrow> nat list \<Rightarrow> nat \<Rightarrow> nat
     \<Rightarrow> loop_result" where
  "eventLoop n redraws env rnd g userEventPool [] loop c = LoopDone g c"
| "eventLoop 0 redraws env rnd g userEventPool (u # us) loop c = LoopUnfinished g c"
| "eventLoop (Suc n) redraws env rnd g userEventPool (u # us) loop c =
     (case selectEvent redraws rnd g userEventPool (u # us) (loop + 1) c of
        SelectionUnfinished \<Rightarrow> LoopUnfinished g c
      | Rejected ts c1 \<Rightarrow>
          eventLoop n redraws env rnd (g\<lparr>teams := ts\<rparr>) userEventPool (u # us) (loop + 1) c1
      | Aborted c1 \<Rightarrow> LoopAborted (g\<lparr>dayState := 0\<rparr>) c1
      | Accepted eventTry numVictim numAttacker ts c1 \<Rightarrow>
          (case applyEvent env rnd (g\<lparr>teams := ts\<rparr>) (u # us) eventTry numVictim numAttacker c1 of
             Inl (g1, c2) \<Rightarrow> LoopThrown g1 c2
           | Inr (g1, pool1, c2) \<Rightarrow> eventLoop n redraws env rnd g1 userEventPool pool1 0 c2))"

section \<open>One day: \<open>nextDay\<close> (lines 597-962)\<close>

text \<open>
  Lines 629-634: the chosen dead player lives again as a zombie, every player still dead
  with a better rank moves down one place, and the revived player takes rank 1.
\<close>

definition revive :: "player list \<Rightarrow> nat \<Rightarrow> player list" where
  "revive users ri =
     (let resurrected = users ! ri;
          users1 = users[ri := resurrected\<lparr>p_living := True, p_state := ''zombie''\<rparr>];
          users2 = map (\<lambda>obj. if \<not> p_living obj \<and> p_rank obj < p_rank resurrected
                              then obj\<lparr>p_rank := p_rank obj + 1\<rparr> else obj) users1
      in users2[ri := (users2 ! ri)\<lparr>p_rank := 1\<rparr>])"

text \<open>
  Lines 622-650. The random source is asked only if the option is on, and a second time
  for the choice among the dead. \<open>Inl\<close> is the state when a TypeError is thrown:
  \<open>team.numAlive++\<close> on an undefined \<open>team\<close> when no team lists the player.
\<close>

definition resurrect :: "env \<Rightarrow> rng \<Rightarrow> game \<Rightarrow> nat \<Rightarrow> (game \<times> nat) + (game \<times> nat)" where
  "resurrect env rnd g c =
     (if resurrection (options g)
      then (if random_below (Math_random rnd c) (probabilityOfResurrect (options g))
            then (let users = includedUsers g;
                      deadPool = filter (\<lambda>i. \<not> p_living (users ! i)) [0..<length users]
                  in if length deadPool > 0
                     then (case at_index deadPool
                                  (random_index (Math_random rnd (c + 1)) (length deadPool)) of
                         None \<Rightarrow> Inl (g, c + 2)
                       | Some ri \<Rightarrow>
                           (let resurrected = users ! ri;
                                g1 = g\<lparr>includedUsers := revive users ri,
                                       numAlive := numAlive g + 1\<rparr>
                            in case makeSingleEvent env g1
                                      ''{victim} has returned from the dead and was put back into the arena!''
                                      [Some ri] 1 0 (mentionAll (options g1)) (c + 2) of
                                 None \<Rightarrow> Inl (g1, c + 2)
                               | Some (fe, c3) \<Rightarrow>
                                   (let g2 = g1\<lparr>dayEvents := dayEvents g1 @ [fe]\<rparr>;
                                        ti = findTeam (teams g2) (p_id resurrected)
                                    in if ti < 0 then Inl (g2, c3)
                                       else (let ts = teams g2;
                                                 team = (ts ! nat ti)\<lparr>t_numAlive := t_numAlive (ts ! nat ti) + 1\<rparr>;
                                                 ts1 = ts[nat ti := team];
                                                 ts2 = map (\<lambda>obj. if t_numAlive obj = 0 \<and> t_rank obj < t_rank team
                                                                  then obj\<lparr>t_rank := t_rank obj + 1\<rparr> else obj) ts1
                                             in Inr (g2\<lparr>teams := ts2\<rparr>, c3)))))
                     else Inr (g, c + 1))
            else Inr (g, c + 1))
      else Inr (g, c))"

text \<open>
  Lines 655-674: the template set of the day, after \<open>day.num++\<close>. The random
  source is asked only on a day whose number is not 1 and only if arena events are on,
  and a second time for the choice of the arena event. \<open>Inl\<close> is the state when a
  TypeError is thrown: reading \<open>arenaEvent.message\<close> when the arena table has no
  entry at the drawn index, after the two draws.
\<close>

definition chooseEventPool ::
  "env \<Rightarrow> rng \<Rightarrow> game \<Rightarrow> nat \<Rightarrow> (game \<times> nat) + (event option list \<times> game \<times> nat)" where
  "chooseEventPool env rnd g c =
     (if dayNum g = 1
      then Inr (defaultBloodbathEvents env @ c_bloodbath (customEvents g), g, c)
      else if arenaEvents (options g)
      then (if random_below (Math_random rnd c) (probabilityOfArenaEvent (options g))
            then (let arenaEventPool = defaultArenaEvents env @ c_arena (customEvents g);
                      index = random_index (Math_random rnd (c + 1)) (length arenaEventPool)
                  in case at_index arenaEventPool index of
                       Some (Some arenaEvent) \<Rightarrow>
                         (case makeSingleEvent env g (''**___'' @ ar_message arenaEvent @ ''___**'')
                                 [] 0 0 False (c + 2) of
                            None \<Rightarrow> Inl (g, c + 2)
                          | Some (fe, c3) \<Rightarrow>
                              Inr (ar_outcomes arenaEvent, g\<lparr>dayEvents := dayEvents g @ [fe]\<rparr>, c3))
                     | _ \<Rightarrow> Inl (g, c + 2))
            else Inr (defaultPlayerEvents env @ c_player (customEvents g), g, c + 1))
      else Inr (defaultPlayerEvents env @ c_player (customEvents g), g, c))"

text \<open>
  Lines 906-937, the \<open>forEach\<close> over \<open>includedUsers\<close> for the positions
  \<open>is\<close>; \<open>usersBleeding\<close> and \<open>usersRecovered\<close> collect references. The random
  draw comes first in the condition, so it is made for every bleeding living player.
  \<open>Inl\<close> is the state when \<open>team.numAlive--\<close> throws because no team lists the
  player (the lookup is not guarded by the team size here).
\<close>

fun bleedPass ::
  "rng \<Rightarrow> game \<Rightarrow> nat list \<Rightarrow> nat option list \<Rightarrow> nat option list \<Rightarrow> nat
     \<Rightarrow> (game \<times> nat) + (game \<times> nat option list \<times> nat option list \<times> nat)" where
  "bleedPass rnd g [] usersBleeding usersRecovered c = Inr (g, usersBleeding, usersRecovered, c)"
| "bleedPass rnd g (i # is) usersBleeding usersRecovered c =
     (let users = includedUsers g; obj = users ! i
      in if p_bleeding obj \<and> p_living obj
         then (if random_below (Math_random rnd c) (probabilityOfBleedToDeath (options g)) \<and>
                  (allowNoVictors (options g) \<or> numAlive g > 1)
               then (let dead = obj\<lparr>p_living := False, p_bleeding := False,
                                    p_state := ''dead'', p_rank := numAlive g\<rparr>;
                         g1 = g\<lparr>includedUsers := users[i := dead], numAlive := numAlive g - 1\<rparr>;
                         ti = findTeam (teams g1) (p_id obj)
                     in if ti < 0 then Inl (g1, c + 1)
                        else bleedPass rnd (g1\<lparr>teams := teamMemberDied (teams g1) (nat ti)\<rparr>) is
                               (usersBleeding @ [Some i]) usersRecovered (c + 1))
               else bleedPass rnd
                      (g\<lparr>includedUsers := users[i := obj\<lparr>p_bleeding := False, p_state := ''normal''\<rparr>]\<rparr>)
                      is usersBleeding (usersRecovered @ [Some i]) (c + 1))
         else bleedPass rnd g is usersBleeding usersRecovered c)"

text \<open>Lines 938-950: the two summary events of the bleed pass.\<close>

definition pushSummary ::
  "env \<Rightarrow> string \<Rightarrow> nat option list \<Rightarrow> game \<times> nat \<Rightarrow> (game \<times> nat) option" where
  "pushSummary env msg us gc =
     (let g = fst gc; c = snd gc
      in if length us > 0
         then (case makeSingleEvent env g msg us (int (length us)) 0 (mentionAll (options g)) c of
                 None \<Rightarrow> None
               | Some (fe, c') \<Rightarrow> Some (g\<lparr>dayEvents := dayEvents g @ [fe]\<rparr>, c'))
         else Some (g, c))"

text \<open>
  What \<open>nextDay\<close> reports. The four replies are "You must start a game first!",
  "Already simulating day.", "I think I'm already simulating... if this isn't true this
  game has crashed and you must end the game." and "A stupid error happened :(".
  \<open>RevealResumed\<close>: no reply, the reveal timer is started again (lines 612-614).
  \<open>DayBegun\<close>: the embed "Day N has begun!" and the reveal timer. \<open>TypeError\<close>: an
  exception leaves \<open>nextDay\<close> (the command handler logs it). \<open>OutOfFuel\<close>: the
  loops have not finished within the fuel given.
\<close>

datatype reply_text = MustStartGame | AlreadySimulatingDay | ThinkAlreadySimulating | StupidError

datatype result = Reply reply_text | RevealResumed | DayBegun | TypeError | OutOfFuel

text \<open>Lines 906-961, after the event loop has emptied the pool.\<close>

definition endOfDay :: "env \<Rightarrow> rng \<Rightarrow> game \<Rightarrow> nat \<Rightarrow> result \<times> game \<times> nat" where
  "endOfDay env rnd g c =
     (case bleedPass rnd g [0..<length (includedUsers g)] [] [] c of
        Inl (g1, c1) \<Rightarrow> (TypeError, g1, c1)
      | Inr (g1, usersBleeding, usersRecovered, c1) \<Rightarrow>
          (case pushSummary env ''{victim} manage[Vs|] to patch their wounds.'' usersRecovered (g1, c1) of
             None \<Rightarrow> (TypeError, g1, c1)
           | Some (g2, c2) \<Rightarrow>
               (case pushSummary env ''{victim} fail[Vs|] to tend to their wounds and die[Vs|].''
                       usersBleeding (g2, c2) of
                  None \<Rightarrow> (TypeError, g2, c2)
                | Some (g3, c3) \<Rightarrow> (DayBegun, g3\<lparr>dayState := 2, interval := True\<rparr>, c3))))"

text \<open>
  What follows the event loop: the failure reply of lines 706-708 when the loop was
  aborted, the end of the day when it emptied the pool.
\<close>

definition afterLoop :: "env \<Rightarrow> rng \<Rightarrow> loop_result \<Rightarrow> result \<times> game \<times> nat" where
  "afterLoop env rnd lr =
     (case lr of
        LoopDone g c \<Rightarrow> endOfDay env rnd g c
      | LoopAborted g c \<Rightarrow> (Reply StupidError, g, c)
      | LoopThrown g c \<Rightarrow> (TypeError, g, c)
      | LoopUnfinished g c \<Rightarrow> (OutOfFuel, g, c))"

text \<open>
  Lines 618-962 for a game in progress whose day has not started: the day is marked as
  simulating, numbered and emptied; then the resurrection, the pool of the living, the
  template set, the event loop and the end of the day. \<open>fuel\<close> bounds the passes of
  the event loop and of each re-draw loop.
\<close>

definition simulateDay :: "nat \<Rightarrow> env \<Rightarrow> rng \<Rightarrow> game \<Rightarrow> nat \<Rightarrow> result \<times> game \<times> nat" where
  "simulateDay fuel env rnd g c =
     (let g1 = g\<lparr>dayState := 1, dayNum := dayNum g + 1, dayEvents := []\<rparr>
      in case resurrect env rnd g1 c of
           Inl (g2, c2) \<Rightarrow> (TypeError, g2, c2)
         | Inr (g2, c2) \<Rightarrow>
             (let userPool = filter (\<lambda>i. p_living (includedUsers g2 ! i))
                               [0..<length (includedUsers g2)]
              in case chooseEventPool env rnd g2 c2 of
                   Inl (g3, c3) \<Rightarrow> (TypeError, g3, c3)
                 | Inr (userEventPool, g3, c3) \<Rightarrow>
                     afterLoop env rnd (eventLoop fuel fuel env rnd g3 userEventPool userPool 0 c3)))"

text \<open>
  \<open>nextDay(msg, id)\<close>: \<open>G\<close> is \<open>games[id]\<close>, \<open>c\<close> the cursor of the random
  source, \<open>fuel\<close> the number of passes allowed to the loops.
\<close>

definition nextDay :: "nat \<Rightarrow> env \<Rightarrow> rng \<Rightarrow> game option \<Rightarrow> nat \<Rightarrow> result \<times> game option \<times> nat" where
  "nextDay fuel env rnd G c =
     (case G of
        None \<Rightarrow> (Reply MustStartGame, G, c)
      | Some g \<Rightarrow>
          if \<not> hasCurrentGame g then (TypeError, G, c)
          else if \<not> inProgress g then (Reply MustStartGame, G, c)
          else if dayState g \<noteq> 0
          then (if interval g then (Reply AlreadySimulatingDay, G, c)
                else if dayState g = 1 then (Reply ThinkAlreadySimulating, G, c)
                else (RevealResumed, Some (g\<lparr>interval := True\<rparr>), c))
          else (case simulateDay fuel env rnd g c of (r, g', c') \<Rightarrow> (r, Some g', c')))"

section \<open>Revealing the day: \<open>printEvent\<close> and \<open>printDay\<close> (lines 1025-1273)\<close>

text \<open>
  The four endings of \<open>printDay\<close>: a team has won, a player has won, everyone has
  died, or the status update of a game that goes on.
\<close>

datatype verdict = TeamWon | PlayerWon | NoWinners | StatusUpdate

text \<open>
  What a reveal step does: it sends one buffered event, or it ends the day (with the
  verdict, and whether "Realtime alive count is incorrect!" was logged), or it throws a
  TypeError.
\<close>

datatype reveal = Revealed final_event | DayEnded verdict bool | RevealThrown

text \<open>
  Lines 1149-1177: the status list reads \<open>teams[myTeam].name\<close> whenever the team
  index changes from one player to the next; that throws for the index -1.
\<close>

fun statusThrows :: "int \<Rightarrow> int list \<Rightarrow> bool" where
  "statusThrows prevTeam [] = False"
| "statusThrows prevTeam (myTeam # rest) =
     (if myTeam \<noteq> prevTeam
      then (if myTeam < 0 then True else statusThrows myTeam rest)
      else statusThrows prevTeam rest)"

text \<open>
  Lines 1193-1273. \<open>Array.prototype.sort\<close> with a comparator is modelled by a stable
  sort on the compared key; an engine may order elements with equal keys differently.
  The timers that send the messages and restart \<open>nextDay\<close> under autoplay run after
  the call and are not part of it.
\<close>

definition finishDay :: "verdict \<Rightarrow> bool \<Rightarrow> game \<Rightarrow> reveal \<times> game" where
  "finishDay v mismatch g =
     (let g1 = (if ended g
                then (let g' = g\<lparr>includedUsers := sort_key p_rank (includedUsers g)\<rparr>
                      in if num_gt (teamSize (options g')) (Num 0)
                         then g'\<lparr>teams := sort_key t_id (sort_key t_rank (teams g'))\<rparr>
                         else g')
                else g)
      in (DayEnded v mismatch, g1\<lparr>dayState := 0\<rparr>))"

text \<open>Lines 1061-1192.\<close>

definition printDay :: "game \<Rightarrow> reveal \<times> game" where
  "printDay g =
     (let users = includedUsers g;
          living = filter (\<lambda>i. p_living (users ! i)) [0..<length users];
          numAlive' = length living;
          withTeams = num_gt (teamSize (options g)) (Num 0);
          aliveTeams = (if withTeams
                        then filter (\<lambda>i. t_numAlive (teams g ! i) > 0) [0..<length (teams g)]
                        else []);
          numTeams = length aliveTeams;
          lastTeam = (if aliveTeams = [] then 0 else last aliveTeams);
          mismatch = (numAlive g \<noteq> int numAlive')
      in if numTeams = 1
         then (if list_all (\<lambda>player. findIndex (\<lambda>user. p_id user = player) users \<ge> 0)
                    (t_players (teams g ! lastTeam))
               then finishDay TeamWon mismatch (g\<lparr>inProgress := False, ended := True, autoPlay := False\<rparr>)
               else (RevealThrown, g))
         else if numAlive' = 1
         then (if withTeams \<and> lastTeam \<ge> length (teams g) then (RevealThrown, g)
               else finishDay PlayerWon mismatch
                      (g\<lparr>inProgress := False, ended := True, autoPlay := False\<rparr>))
         else if numAlive' < 1
         then finishDay NoWinners mismatch (g\<lparr>inProgress := False, ended := True, autoPlay := False\<rparr>)
         else (let g1 = (if withTeams
                         then g\<lparr>includedUsers :=
                                 sort_key (\<lambda>a. (findTeam (teams g) (p_id a), p_id a)) users\<rparr>
                         else g);
                   myTeams = map (\<lambda>obj. if withTeams then findTeam (teams g1) (p_id obj) else -1)
                               (includedUsers g1)
               in if statusThrows (-1) myTeams then (RevealThrown, g1)
                  else finishDay StatusUpdate mismatch g1))"

text \<open>
  \<open>printEvent\<close>: \<open>events[index]\<close> is undefined for an index outside the list, and
  reading its \<open>icons\<close> throws before anything is changed.
\<close>

definition printEvent :: "game \<Rightarrow> reveal \<times> game" where
  "printEvent g =
     (let index = dayState g - 2; events = dayEvents g
      in if index = int (length events) then printDay (g\<lparr>interval := False\<rparr>)
         else if 0 \<le> index \<and> index < int (length events)
         then (Revealed (events ! nat index), g\<lparr>dayState := dayState g + 1\<rparr>)
         else (RevealThrown, g))"

section \<open>Well-formed games\<close>

text \<open>The number of players whose \<open>living\<close> flag is set.\<close>

definition countLiving :: "player list \<Rightarrow> nat" where
  "countLiving users = length (filter p_living users)"

text \<open>
  The user ids of a game are pairwise different: \<open>getAllPlayers\<close> builds the
  players from the members of a guild, which are keyed by id.
\<close>

definition distinctIds :: "game \<Rightarrow> bool" where
  "distinctIds g = distinct (map p_id (includedUsers g))"

text \<open>The alive counter agrees with the \<open>living\<close> flags.\<close>

definition aliveSynced :: "game \<Rightarrow> bool" where
  "aliveSynced g = (numAlive g = int (countLiving (includedUsers g)))"

text \<open>
  A dead player is not bleeding (true of a new player, and kept by every kill), and no
  player at all is bleeding.
\<close>

definition deadNotBleeding :: "game \<Rightarrow> bool" where
  "deadNotBleeding g = list_all (\<lambda>p. p_living p \<or> \<not> p_bleeding p) (includedUsers g)"

definition noneBleeding :: "game \<Rightarrow> bool" where
  "noneBleeding g = list_all (\<lambda>p. \<not> p_bleeding p) (includedUsers g)"

text \<open>
  The pool of a day: references to pairwise different, living players of the game.
\<close>

definition poolOk :: "player list \<Rightarrow> nat list \<Rightarrow> bool" where
  "poolOk users userPool =
     (distinct userPool \<and> list_all (\<lambda>u. u < length users \<and> p_living (users ! u)) userPool)"

text \<open>The references of a list that are defined.\<close>

fun somes :: "'a option list \<Rightarrow> 'a list" where
  "somes [] = []"
| "somes (None # xs) = somes xs"
| "somes (Some x # xs) = x # somes xs"

text \<open>\<open>effectedUsers[i]\<close> as a reference, undefined out of range.\<close>

definition target :: "nat option list \<Rightarrow> nat \<Rightarrow> nat option" where
  "target effectedUsers i = (case at_index effectedUsers i of Some x \<Rightarrow> x | None \<Rightarrow> None)"

text \<open>
  \<open>touched S g g'\<close>: \<open>g'\<close> comes from \<open>g\<close> by changes to the players at the
  positions in \<open>S\<close> only, none of which changes an id, revives a player or leaves a
  dead player bleeding; the options are the same, and the alive counter has moved
  with the number of living players and has not grown.
\<close>

definition touched :: "nat set \<Rightarrow> game \<Rightarrow> game \<Rightarrow> bool" where
  "touched S g g' =
     (length (includedUsers g') = length (includedUsers g) \<and>
      options g' = options g \<and>
      (\<forall>j < length (includedUsers g).
         p_id (includedUsers g' ! j) = p_id (includedUsers g ! j) \<and>
         (j \<notin> S \<longrightarrow> includedUsers g' ! j = includedUsers g ! j) \<and>
         (p_living (includedUsers g' ! j) \<longrightarrow> p_living (includedUsers g ! j)) \<and>
         (\<not> p_living (includedUsers g' ! j) \<and> p_bleeding (includedUsers g' ! j)
            \<longrightarrow> \<not> p_living (includedUsers g ! j) \<and> p_bleeding (includedUsers g ! j))) \<and>
      numAlive g' - int (countLiving (includedUsers g')) =
        numAlive g - int (countLiving (includedUsers g)) \<and>
      numAlive g' \<le> numAlive g)"


text \<open>The game that a result of the event loop carries.\<close>

fun loopGame :: "loop_result \<Rightarrow> game" where
  "loopGame (LoopDone g c) = g"
| "loopGame (LoopAborted g c) = g"
| "loopGame (LoopThrown g c) = g"
| "loopGame (LoopUnfinished g c) = g"

section \<open>Example data\<close>

text \<open>
  A rendering in which no message mentions \<open>{dead}\<close>, a template with plain
  counts, a table of templates, a two-player game in progress without arena events, and
  a random source given by its first draws (all later draws are 0).
\<close>

definition draws :: "int list \<Rightarrow> rng" where
  "draws ks i = (if i < length ks then ks ! i else 0)"

definition noDead :: "string \<Rightarrow> player list \<Rightarrow> player list \<Rightarrow> bool \<Rightarrow> bool" where
  "noDead msg vs as mention = False"

definition simpleEvent :: "string \<Rightarrow> int \<Rightarrow> string \<Rightarrow> int \<Rightarrow> string \<Rightarrow> event" where
  "simpleEvent msg nv vo na ao =
     \<lparr>ev_message = msg,
      ev_victim = \<lparr>s_count = nv, s_outcome = vo, s_killer = False\<rparr>,
      ev_attacker = \<lparr>s_count = na, s_outcome = ao, s_killer = False\<rparr>\<rparr>"

definition exampleEnv :: env where
  "exampleEnv =
     \<lparr>defaultBloodbathEvents = [Some (simpleEvent ''B'' 1 ''dies'' 0 ''nothing''),
                                Some (simpleEvent ''H'' 1 ''nothing'' 0 ''nothing'')],
      defaultPlayerEvents = [Some (simpleEvent ''P'' 1 ''wounded'' 0 ''nothing'')],
      defaultArenaEvents = [], mentionsDead = noDead\<rparr>"

definition exampleGame :: game where
  "exampleGame =
     (freshGame ''G'' [Player 1 ''a'' ''u'', Player 2 ''b'' ''v''])
       \<lparr>inProgress := True, options := defaultOptions\<lparr>arenaEvents := False\<rparr>\<rparr>"

lemmas example_defs =
  exampleGame_def exampleEnv_def simpleEvent_def noDead_def freshGame_def Player_def
  defaultOptions_def

section \<open>Event selection: the resolved counts\<close>

lemma redrawCounts_fits:
  "redrawCounts n rnd ma mv amin vmin na nv plen c = Some (na', nv', c')
     \<Longrightarrow> na' + nv' \<le> int plen"
  by (induction n arbitrary: na nv c) (auto simp: Let_def split: if_splits)

lemma redrawCounts_nonneg:
  "redrawCounts n rnd ma mv amin vmin na nv plen c = Some (na', nv', c') \<Longrightarrow>
   (ma \<longrightarrow> 1 \<le> amin) \<Longrightarrow> (mv \<longrightarrow> 1 \<le> vmin) \<Longrightarrow> (\<not> ma \<longrightarrow> 0 \<le> na) \<Longrightarrow>
   (\<not> mv \<longrightarrow> 0 \<le> nv) \<Longrightarrow> 0 \<le> na' \<and> 0 \<le> nv'"
proof (induction n arbitrary: na nv c)
  case 0
  then show ?case by simp
next
  case (Suc n)
  let ?na = "if ma then int (weightedRand (Math_random rnd c)) + (amin - 1) else na"
  let ?c1 = "if ma then c + 1 else c"
  let ?nv = "if mv then int (weightedRand (Math_random rnd ?c1)) + (vmin - 1) else nv"
  let ?c2 = "if mv then ?c1 + 1 else ?c1"
  show ?case
  proof (cases "?na + ?nv > int plen")
    case True
    then show ?thesis
      using Suc.prems Suc.IH[of ?na ?nv ?c2] by (simp add: Let_def split: if_splits)
  next
    case False
    then show ?thesis
      using Suc.prems by (auto simp: Let_def split: if_splits)
  qed
qed

text \<open>What an accepted template has passed.\<close>

lemma selectEvent_AcceptedD:
  assumes "selectEvent fuel rnd g userEventPool userPool loop c =
             Accepted eventTry numVictim numAttacker ts c'"
  shows "\<not> allDeadCheck g eventTry numVictim numAttacker \<and> loop \<le> 100 \<and>
         0 \<le> numVictim \<and> 0 \<le> numAttacker \<and>
         numVictim + numAttacker \<le> int (length userPool) \<and>
         \<bar>s_count (ev_victim eventTry)\<bar> + \<bar>s_count (ev_attacker eventTry)\<bar>
           \<le> int (length userPool)"
proof -
  let ?a = "s_count (ev_attacker eventTry)" and ?v = "s_count (ev_victim eventTry)"
  from assms have ev: "loop \<le> 100"
    and mn: "(if ?v < 0 then - ?v else ?v) + (if ?a < 0 then - ?a else ?a)
               \<le> int (length userPool)"
    and r: "(if ?a < 0 \<or> ?v < 0
             then redrawCounts fuel rnd (?a < 0) (?v < 0) (- ?a) (- ?v) ?a ?v
                    (length userPool) (c + 1)
             else Some (?a, ?v, c + 1)) = Some (numAttacker, numVictim, c')"
    and ad: "\<not> allDeadCheck g eventTry numVictim numAttacker"
    unfolding selectEvent_def Let_def
    by (auto split: if_splits option.splits)
  from mn have mn': "\<bar>?v\<bar> + \<bar>?a\<bar> \<le> int (length userPool)"
    by (simp add: abs_if split: if_splits)
  show ?thesis
  proof (cases "?a < 0 \<or> ?v < 0")
    case True
    with r have rc: "redrawCounts fuel rnd (?a < 0) (?v < 0) (- ?a) (- ?v) ?a ?v
                       (length userPool) (c + 1) = Some (numAttacker, numVictim, c')"
      by simp
    from redrawCounts_fits[OF rc] redrawCounts_nonneg[OF rc] ev ad mn' show ?thesis
      by auto
  next
    case False
    with r mn ev ad mn' show ?thesis by auto
  qed
qed

text \<open>
  C5. Every template that the selector accepts has resolved counts that are not negative
  and whose sum is at most the size of the living pool at that moment; the minimum that
  the template requires fits the pool as well; and the re-draw loop for "at least N"
  counts returns only counts whose sum fits the pool.
\<close>

theorem accepted_event_fits_pool:
  "(selectEvent fuel rnd g userEventPool userPool loop c =
      Accepted eventTry numVictim numAttacker ts c' \<longrightarrow>
      0 \<le> numVictim \<and> 0 \<le> numAttacker \<and>
      numVictim + numAttacker \<le> int (length userPool) \<and>
      \<bar>s_count (ev_victim eventTry)\<bar> + \<bar>s_count (ev_attacker eventTry)\<bar>
        \<le> int (length userPool)) \<and>
   (redrawCounts n rnd multiAttacker multiVictim attackerMin victimMin a v (length userPool) k =
      Some (a', v', k') \<longrightarrow> a' + v' \<le> int (length userPool))"
proof (rule conjI)
  show "selectEvent fuel rnd g userEventPool userPool loop c =
          Accepted eventTry numVictim numAttacker ts c' \<longrightarrow>
        0 \<le> numVictim \<and> 0 \<le> numAttacker \<and>
        numVictim + numAttacker \<le> int (length userPool) \<and>
        \<bar>s_count (ev_victim eventTry)\<bar> + \<bar>s_count (ev_attacker eventTry)\<bar>
          \<le> int (length userPool)"
    using selectEvent_AcceptedD[of fuel rnd g userEventPool userPool loop c eventTry
            numVictim numAttacker ts c']
    by blast
next
  show "redrawCounts n rnd multiAttacker multiVictim attackerMin victimMin a v
          (length userPool) k = Some (a', v', k') \<longrightarrow> a' + v' \<le> int (length userPool)"
    using redrawCounts_fits by blast
qed

theorem accepted_event_fits_pool_example:
  "selectEvent 1 (\<lambda>_. 0) exampleGame [Some (simpleEvent ''M'' (- 2) ''wounded'' 1 ''nothing'')]
      [0, 1, 0, 1] 1 0 =
     Accepted (simpleEvent ''M'' (- 2) ''wounded'' 1 ''nothing'') 2 1 [] 2 \<and>
   redrawCounts 1 (\<lambda>_. 0) False True (- 1) 2 1 (- 2) (length [0, 1, 0, 1 :: nat]) 1 =
     Some (1, 2, 2) \<and>
   (2::int) + 1 \<le> int (length [0, 1, 0, 1 :: nat])"
proof -
  have s: "selectEvent 1 (\<lambda>_. 0) exampleGame
             [Some (simpleEvent ''M'' (- 2) ''wounded'' 1 ''nothing'')] [0, 1, 0, 1] 1 0 =
           Accepted (simpleEvent ''M'' (- 2) ''wounded'' 1 ''nothing'') 2 1 [] 2"
    by (simp add: selectEvent_def random_index_def Math_random_def weightedRand_def
          allDeadCheck_def num_gt_def Let_def example_defs)
  have r: "redrawCounts 1 (\<lambda>_. 0) False True (- 1) 2 1 (- 2) (length [0, 1, 0, 1 :: nat]) 1 =
             Some (1, 2, 2)"
    by (simp add: Math_random_def weightedRand_def Let_def)
  have t: "(selectEvent 1 (\<lambda>_. 0) exampleGame
               [Some (simpleEvent ''M'' (- 2) ''wounded'' 1 ''nothing'')] [0, 1, 0, 1] 1 0 =
             Accepted (simpleEvent ''M'' (- 2) ''wounded'' 1 ''nothing'') 2 1 [] 2 \<longrightarrow>
             0 \<le> (2::int) \<and> 0 \<le> (1::int) \<and> (2::int) + 1 \<le> int (length [0, 1, 0, 1 :: nat]) \<and>
             \<bar>s_count (ev_victim (simpleEvent ''M'' (- 2) ''wounded'' 1 ''nothing''))\<bar> +
             \<bar>s_count (ev_attacker (simpleEvent ''M'' (- 2) ''wounded'' 1 ''nothing''))\<bar>
               \<le> int (length [0, 1, 0, 1 :: nat])) \<and>
           (redrawCounts 1 (\<lambda>_. 0) False True (- 1) 2 1 (- 2) (length [0, 1, 0, 1 :: nat]) 1 =
              Some (1, 2, 2) \<longrightarrow> (1::int) + 2 \<le> int (length [0, 1, 0, 1 :: nat]))"
    by (rule accepted_event_fits_pool)
  from t s r
  show ?thesis by simp
qed

section \<open>Outcomes\<close>

text \<open>
  C6. A wounded player to whom the outcome thrives is applied ends with the state normal
  but with the bleeding flag set: \<open>restoreUser\<close> goes through \<open>effectUser\<close>, which
  marks every wounded player it touches as bleeding, and clears nothing afterwards.
\<close>

theorem thrives_leaves_wounded_bleeding:
  "applyOutcome (freshGame ''G'' [(Player 1 ''a'' ''u'')\<lparr>p_state := ''wounded''\<rparr>])
      [Some 0] ''thrives'' 0 0 =
     Some (freshGame ''G'' [(Player 1 ''a'' ''u'')\<lparr>p_state := ''normal'', p_bleeding := True\<rparr>])"
  by (simp add: applyOutcome_def restoreUser_def effectUser_def at_index_def freshGame_def
        Player_def Let_def)

section \<open>The template set of the day\<close>

lemma resurrect_day:
  "resurrect env rnd g c = Inr (g', c')
     \<Longrightarrow> dayNum g' = dayNum g \<and> customEvents g' = customEvents g \<and> options g' = options g"
  by (auto simp: resurrect_def Let_def split: if_splits option.splits)

text \<open>
  C7, as the code has it. \<open>nextDay\<close> increments the day number before the template
  set is chosen, so the day entered from the day number 0 is day 1, and it is on this day,
  and on no other, that the bloodbath templates are chosen: no random draw is made and
  the event loop of the day runs on the bloodbath templates. On a day entered from
  another number, the player templates are chosen unless arena events are on and the
  draw for an arena event succeeds; the event loop then runs on the player templates.
  In the remaining case the set that is chosen, if the choice does not throw, is the
  list of outcomes of the arena event at the drawn index.
\<close>

theorem bloodbath_on_day_one:
  assumes "resurrect env rnd (g\<lparr>dayState := 1, dayNum := dayNum g + 1, dayEvents := []\<rparr>) c =
             Inr (g2, c2)"
  shows "dayNum g2 = dayNum g + 1 \<and>
         (dayNum g = 0 \<longrightarrow>
            chooseEventPool env rnd g2 c2 =
              Inr (defaultBloodbathEvents env @ c_bloodbath (customEvents g), g2, c2) \<and>
            simulateDay fuel env rnd g c =
              afterLoop env rnd
                (eventLoop fuel fuel env rnd g2
                   (defaultBloodbathEvents env @ c_bloodbath (customEvents g))
                   (filter (\<lambda>i. p_living (includedUsers g2 ! i)) [0..<length (includedUsers g2)])
                   0 c2)) \<and>
         (dayNum g \<noteq> 0 \<and>
          \<not> (arenaEvents (options g) \<and>
             random_below (Math_random rnd c2) (probabilityOfArenaEvent (options g))) \<longrightarrow>
            chooseEventPool env rnd g2 c2 =
              Inr (defaultPlayerEvents env @ c_player (customEvents g), g2,
                   if arenaEvents (options g) then c2 + 1 else c2) \<and>
            simulateDay fuel env rnd g c =
              afterLoop env rnd
                (eventLoop fuel fuel env rnd g2
                   (defaultPlayerEvents env @ c_player (customEvents g))
                   (filter (\<lambda>i. p_living (includedUsers g2 ! i)) [0..<length (includedUsers g2)])
                   0 (if arenaEvents (options g) then c2 + 1 else c2))) \<and>
         (dayNum g \<noteq> 0 \<and> arenaEvents (options g) \<and>
          random_below (Math_random rnd c2) (probabilityOfArenaEvent (options g)) \<longrightarrow>
            (\<forall>userEventPool g3 c3.
               chooseEventPool env rnd g2 c2 = Inr (userEventPool, g3, c3) \<longrightarrow>
               (\<exists>arenaEvent.
                  at_index (defaultArenaEvents env @ c_arena (customEvents g))
                    (random_index (Math_random rnd (c2 + 1))
                       (length (defaultArenaEvents env @ c_arena (customEvents g)))) =
                    Some (Some arenaEvent) \<and>
                  userEventPool = ar_outcomes arenaEvent)))"
proof -
  from resurrect_day[OF assms]
  have d: "dayNum g2 = dayNum g + 1" and ce: "customEvents g2 = customEvents g"
    and op: "options g2 = options g" by simp_all
  have first: "chooseEventPool env rnd g2 c2 =
                 Inr (defaultBloodbathEvents env @ c_bloodbath (customEvents g), g2, c2)"
    if "dayNum g = 0"
    using that d ce by (simp add: chooseEventPool_def)
  have later: "chooseEventPool env rnd g2 c2 =
                 Inr (defaultPlayerEvents env @ c_player (customEvents g), g2,
                      if arenaEvents (options g) then c2 + 1 else c2)"
    if "dayNum g \<noteq> 0"
       "\<not> (arenaEvents (options g) \<and>
           random_below (Math_random rnd c2) (probabilityOfArenaEvent (options g)))"
    using that d ce op by (auto simp: chooseEventPool_def)
  have arena: "\<exists>arenaEvent.
                  at_index (defaultArenaEvents env @ c_arena (customEvents g))
                    (random_index (Math_random rnd (c2 + 1))
                       (length (defaultArenaEvents env @ c_arena (customEvents g)))) =
                    Some (Some arenaEvent) \<and>
                  userEventPool = ar_outcomes arenaEvent"
    if "dayNum g \<noteq> 0" "arenaEvents (options g)"
       "random_below (Math_random rnd c2) (probabilityOfArenaEvent (options g))"
       "chooseEventPool env rnd g2 c2 = Inr (userEventPool, g3, c3)"
    for userEventPool g3 c3
    using that d ce op unfolding chooseEventPool_def Let_def
    by (auto split: option.splits)
  have day: "simulateDay fuel env rnd g c =
               afterLoop env rnd
                 (eventLoop fuel fuel env rnd g2 evs
                    (filter (\<lambda>i. p_living (includedUsers g2 ! i)) [0..<length (includedUsers g2)])
                    0 c3)"
    if "chooseEventPool env rnd g2 c2 = Inr (evs, g2, c3)" for evs c3
    using that assms by (simp add: simulateDay_def Let_def)
  from d first later arena day show ?thesis by blast
qed

text \<open>
  A new game: the day entered from the day number 0 is day 1 and runs on the bloodbath
  templates. The same game one day later: the day entered from the day number 1 runs on
  the player templates.
\<close>

theorem bloodbath_on_day_one_example:
  "resurrect exampleEnv (\<lambda>_. 0)
      (exampleGame\<lparr>dayState := 1, dayNum := dayNum exampleGame + 1, dayEvents := []\<rparr>) 0 =
     Inr (exampleGame\<lparr>dayState := 1, dayNum := 1\<rparr>, 0) \<and>
   dayNum exampleGame = 0 \<and>
   chooseEventPool exampleEnv (\<lambda>_. 0) (exampleGame\<lparr>dayState := 1, dayNum := 1\<rparr>) 0 =
     Inr ([Some (simpleEvent ''B'' 1 ''dies'' 0 ''nothing''),
           Some (simpleEvent ''H'' 1 ''nothing'' 0 ''nothing'')],
          exampleGame\<lparr>dayState := 1, dayNum := 1\<rparr>, 0) \<and>
   simulateDay 5 exampleEnv (\<lambda>_. 0) exampleGame 0 =
     afterLoop exampleEnv (\<lambda>_. 0)
       (eventLoop 5 5 exampleEnv (\<lambda>_. 0) (exampleGame\<lparr>dayState := 1, dayNum := 1\<rparr>)
          [Some (simpleEvent ''B'' 1 ''dies'' 0 ''nothing''),
           Some (simpleEvent ''H'' 1 ''nothing'' 0 ''nothing'')]
          [0, 1] 0 0)"
proof -
  have r: "resurrect exampleEnv (\<lambda>_. 0)
             (exampleGame\<lparr>dayState := 1, dayNum := dayNum exampleGame + 1, dayEvents := []\<rparr>) 0 =
           Inr (exampleGame\<lparr>dayState := 1, dayNum := 1\<rparr>, 0)"
    by (simp add: resurrect_def example_defs)
  have d: "dayNum exampleGame = 0" by (simp add: example_defs)
  have b: "defaultBloodbathEvents exampleEnv @ c_bloodbath (customEvents exampleGame) =
             [Some (simpleEvent ''B'' 1 ''dies'' 0 ''nothing''),
              Some (simpleEvent ''H'' 1 ''nothing'' 0 ''nothing'')]"
    by (simp add: example_defs)
  have p: "filter (\<lambda>i. p_living (includedUsers (exampleGame\<lparr>dayState := 1, dayNum := 1\<rparr>) ! i))
             [0..<length (includedUsers (exampleGame\<lparr>dayState := 1, dayNum := 1\<rparr>))] = [0, 1]"
    by (simp add: example_defs upt_rec)
  from bloodbath_on_day_one[OF r, of 5] d have
    "chooseEventPool exampleEnv (\<lambda>_. 0) (exampleGame\<lparr>dayState := 1, dayNum := 1\<rparr>) 0 =
       Inr (defaultBloodbathEvents exampleEnv @ c_bloodbath (customEvents exampleGame),
            exampleGame\<lparr>dayState := 1, dayNum := 1\<rparr>, 0) \<and>
     simulateDay 5 exampleEnv (\<lambda>_. 0) exampleGame 0 =
       afterLoop exampleEnv (\<lambda>_. 0)
         (eventLoop 5 5 exampleEnv (\<lambda>_. 0) (exampleGame\<lparr>dayState := 1, dayNum := 1\<rparr>)
            (defaultBloodbathEvents exampleEnv @ c_bloodbath (customEvents exampleGame))
            (filter (\<lambda>i. p_living (includedUsers (exampleGame\<lparr>dayState := 1, dayNum := 1\<rparr>) ! i))
               [0..<length (includedUsers (exampleGame\<lparr>dayState := 1, dayNum := 1\<rparr>))])
            0 0)"
    by blast
  with r d show ?thesis unfolding b p by simp
qed

text \<open>
  A new game has the day number 0. Its first day is simulated: the day that results
  has the number 1, and its two events come from the bloodbath templates (\<open>B\<close> is a
  bloodbath template and not a player template). No day is simulated under the number 0.
\<close>

theorem bloodbath_not_on_day_zero:
  "dayNum exampleGame = 0 \<and>
   (case nextDay 5 exampleEnv (draws []) (Some exampleGame) 0 of
      (r, G', c') \<Rightarrow>
        r = DayBegun \<and> map_option dayNum G' = Some 1 \<and>
        map_option (\<lambda>g'. map fe_message (dayEvents g')) G' = Some [''B'', ''B'']) \<and>
   map (map_option ev_message) (defaultBloodbathEvents exampleEnv) = [Some ''B'', Some ''H''] \<and>
   map (map_option ev_message) (defaultPlayerEvents exampleEnv) = [Some ''P'']"
  by code_simp

section \<open>Starting a day that has already started\<close>

text \<open>
  C4, as the code has it. When the state of the day is not 0, \<open>nextDay\<close> does not
  run the event loop and asks the random source for nothing. It replies with an error
  and leaves the game as it is when the game is not in progress ("You must start a game
  first!"), when a reveal timer is running ("Already simulating day."), or when the state
  is 1 ("I think I'm already simulating..."). Otherwise (a revealing day without a timer)
  it sends no reply and starts the reveal timer again, which is the only change to the
  game. In every case the day number, the state of the day, the events, the players, the
  alive counter and the teams are as before.
\<close>

theorem nextDay_started_day:
  assumes "nextDay fuel env rnd (Some g) c = (r, G', c')"
      and "dayState g \<noteq> 0" and "hasCurrentGame g"
  shows "c' = c \<and>
         (\<not> inProgress g \<longrightarrow> r = Reply MustStartGame \<and> G' = Some g) \<and>
         (inProgress g \<and> interval g \<longrightarrow> r = Reply AlreadySimulatingDay \<and> G' = Some g) \<and>
         (inProgress g \<and> \<not> interval g \<and> dayState g = 1 \<longrightarrow>
            r = Reply ThinkAlreadySimulating \<and> G' = Some g) \<and>
         (inProgress g \<and> \<not> interval g \<and> dayState g \<noteq> 1 \<longrightarrow>
            r = RevealResumed \<and> G' = Some (g\<lparr>interval := True\<rparr>)) \<and>
         (\<exists>g'. G' = Some g' \<and> dayNum g' = dayNum g \<and> dayState g' = dayState g \<and>
               dayEvents g' = dayEvents g \<and> includedUsers g' = includedUsers g \<and>
               numAlive g' = numAlive g \<and> teams g' = teams g) \<and>
         (r = RevealResumed \<or> (\<exists>t. r = Reply t)) \<and>
         (r = RevealResumed \<longleftrightarrow> inProgress g \<and> \<not> interval g \<and> dayState g \<noteq> 1)"
  using assms by (auto simp: nextDay_def split: if_splits)

theorem nextDay_started_day_example:
  "nextDay 0 exampleEnv (\<lambda>_. 0) (Some (exampleGame\<lparr>dayState := 1\<rparr>)) 0 =
     (Reply ThinkAlreadySimulating, Some (exampleGame\<lparr>dayState := 1\<rparr>), 0) \<and>
   dayState (exampleGame\<lparr>dayState := 1\<rparr>) \<noteq> 0 \<and> hasCurrentGame (exampleGame\<lparr>dayState := 1\<rparr>) \<and>
   Reply ThinkAlreadySimulating \<noteq> RevealResumed"
proof -
  have n: "nextDay 0 exampleEnv (\<lambda>_. 0) (Some (exampleGame\<lparr>dayState := 1\<rparr>)) 0 =
             (Reply ThinkAlreadySimulating, Some (exampleGame\<lparr>dayState := 1\<rparr>), 0)"
    by (simp add: nextDay_def example_defs)
  have s: "dayState (exampleGame\<lparr>dayState := 1\<rparr>) \<noteq> 0" by simp
  have h: "hasCurrentGame (exampleGame\<lparr>dayState := 1\<rparr>)" by (simp add: example_defs)
  from nextDay_started_day[OF n s h] n s h show ?thesis by simp
qed

text \<open>
  A game in progress whose day is being revealed (state 2) and that has no running
  timer: \<open>nextDay\<close> reports no error, it restarts the timer.
\<close>

theorem nextDay_resumes_without_error:
  "nextDay 0 exampleEnv (\<lambda>_. 0) (Some (exampleGame\<lparr>dayState := 2\<rparr>)) 0 =
     (RevealResumed, Some (exampleGame\<lparr>dayState := 2, interval := True\<rparr>), 0)"
  by (simp add: nextDay_def example_defs)

section \<open>The reveal step after the last event\<close>






section \<open>Setting an option\<close>

text \<open>
  C8. For a numeric option the value is stored whatever the text was: \<open>Number(value)\<close>
  always has the type number, also when it is \<open>NaN\<close>, so the test that should reject
  the value never fires. Here the text abc is stored (converted) as the team size of a
  fresh game and the reply is "Set teamSize to ...".
\<close>

theorem toggleOpt_stores_non_numeric:
  "toggleOpt Number ''teamSize abc'' (Some (freshGame guild users)) =
     ([OptionSet ''teamSize'', TeamsResetHint],
      Some ((freshGame guild users)
              \<lparr>options := defaultOptions\<lparr>teamSize := Number (Some ''abc'')\<rparr>\<rparr>))"
  by (simp add: toggleOpt_def at_index_def freshGame_def typeofDefaultOption_def
        typeof_num_def setNumberOption_def Let_def)

text \<open>
  No text is ever rejected for a numeric option: the reply "That is not a valid value
  ..., which requires a number." is never sent.
\<close>

lemma toggleOpt_never_rejects_number:
  "InvalidNumber opt \<notin> set (fst (toggleOpt Number txt G))"
  by (auto simp: toggleOpt_def typeof_num_def Let_def split: option.splits jstype.splits)

text \<open>
  A boolean option is checked: a second word other than true and false (or none at
  all) is rejected and the game is left as it is.
\<close>

lemma toggleOpt_rejects_non_boolean:
  assumes "hasCurrentGame g" and "\<not> inProgress g"
      and "at_index (split_str CHR '' '' txt) 0 = Some opt"
      and "typeofDefaultOption opt = Some TBoolean"
      and "at_index (split_str CHR '' '' txt) 1 \<noteq> Some ''true''"
      and "at_index (split_str CHR '' '' txt) 1 \<noteq> Some ''false''"
  shows "toggleOpt Number txt (Some g) = ([InvalidBoolean opt], Some g)"
proof -
  from assms(4) have "opt \<noteq> []" by (auto simp: typeofDefaultOption_def)
  with assms show ?thesis by (simp add: toggleOpt_def Let_def)
qed

section \<open>Lists, references and the random source\<close>

text \<open>What \<open>findIndex\<close> returns.\<close>

lemma findIndex_bounds: "- 1 \<le> findIndex P xs \<and> findIndex P xs < int (length xs)"
  by (induction xs) (auto simp: Let_def)

lemma findIndex_nonneg_iff: "0 \<le> findIndex P xs \<longleftrightarrow> (\<exists>x \<in> set xs. P x)"
  by (induction xs) (auto simp: Let_def)

lemma findIndex_sat: "0 \<le> findIndex P xs \<Longrightarrow> P (xs ! nat (findIndex P xs))"
proof (induction xs)
  case Nil then show ?case by simp
next
  case (Cons x xs)
  show ?case
  proof (cases "P x")
    case True then show ?thesis by simp
  next
    case False
    with Cons.prems have nn: "0 \<le> findIndex P xs" by (auto simp: Let_def split: if_splits)
    with False Cons.IH show ?thesis by (simp add: Let_def nat_add_distrib)
  qed
qed

lemma findIndex_unique:
  assumes "u < length xs" "P (xs ! u)" "\<forall>j < length xs. P (xs ! j) \<longrightarrow> j = u"
  shows "findIndex P xs = int u"
proof -
  from assms(1,2) have "\<exists>x \<in> set xs. P x" by (metis nth_mem)
  then have nn: "0 \<le> findIndex P xs" by (simp add: findIndex_nonneg_iff)
  from findIndex_bounds[of P xs] nn have lt: "nat (findIndex P xs) < length xs" by auto
  from findIndex_sat[OF nn] assms(3) lt have "nat (findIndex P xs) = u" by blast
  with nn show ?thesis by simp
qed

text \<open>Among pairwise different ids, the search for the id of a player finds that player.\<close>

lemma findIndex_own_id:
  assumes "distinct (map p_id users)" "u < length users"
  shows "findIndex (\<lambda>obj. p_id obj = p_id (users ! u)) users = int u"
proof (rule findIndex_unique[OF assms(2)])
  show "p_id (users ! u) = p_id (users ! u)" by simp
  show "\<forall>j<length users. p_id (users ! j) = p_id (users ! u) \<longrightarrow> j = u"
  proof (intro allI impI)
    fix j assume "j < length users" "p_id (users ! j) = p_id (users ! u)"
    with assms show "j = u"
      by (metis distinct_conv_nth length_map nth_map)
  qed
qed



lemma somes_append: "somes (xs @ ys) = somes xs @ somes ys"
  by (induction xs rule: somes.induct) auto

lemma set_somes: "x \<in> set (somes xs) \<longleftrightarrow> Some x \<in> set xs"
  by (induction xs rule: somes.induct) auto

text \<open>
  Taking participants out of the pool splits it: the references taken and the pool
  that is left make up the old pool.
\<close>

lemma splice1_mset:
  "splice1 s xs = (x, ys) \<Longrightarrow> mset (somes [x]) + mset ys = mset xs"
proof -
  assume a: "splice1 s xs = (x, ys)"
  define k where "k = nat (if s < 0 then max (int (length xs) + s) 0 else min s (int (length xs)))"
  show ?thesis
  proof (cases "k < length xs")
    case True
    with a have x: "x = Some (xs ! k)" and ys: "ys = take k xs @ drop (Suc k) xs"
      by (auto simp: splice1_def Let_def k_def)
    have "xs = take k xs @ xs ! k # drop (Suc k) xs" using True by (rule id_take_nth_drop)
    then have "mset xs = mset (take k xs @ xs ! k # drop (Suc k) xs)" by simp
    with x ys show ?thesis by simp
  next
    case False
    with a show ?thesis by (auto simp: splice1_def Let_def k_def)
  qed
qed

lemma pickRandomUsers_mset:
  "pickRandomUsers rnd k pool c = (eff, pool', c') \<Longrightarrow>
     mset (somes eff) + mset pool' = mset pool \<and> length eff = k"
proof (induction k arbitrary: pool c eff pool' c')
  case 0 then show ?case by simp
next
  case (Suc k)
  obtain x pool1 where sp: "splice1 (int (random_index (Math_random rnd c) (length pool))) pool = (x, pool1)"
    by (cases "splice1 (int (random_index (Math_random rnd c) (length pool))) pool") auto
  obtain xs pool2 c2 where rec: "pickRandomUsers rnd k pool1 (c + 1) = (xs, pool2, c2)"
    by (cases "pickRandomUsers rnd k pool1 (c + 1)") auto
  from Suc.prems sp rec have e: "eff = x # xs" "pool' = pool2" by (auto simp: Let_def)
  from Suc.IH[OF rec] have ih: "mset (somes xs) + mset pool2 = mset pool1" "length xs = k" by auto
  from splice1_mset[OF sp] have "mset (somes [x]) + mset pool1 = mset pool" .
  with ih e show ?case by (cases x) (auto simp: ac_simps)
qed

lemma pickTeamUsers_mset:
  "pickTeamUsers users ts vt ia nv is pool = (eff, pool') \<Longrightarrow>
     mset (somes eff) + mset pool' = mset pool \<and> length eff = length is"
proof (induction "is" arbitrary: pool eff pool')
  case Nil then show ?case by simp
next
  case (Cons i "is")
  let ?m = "(int i < nv \<and> \<not> ia) \<or> (int i \<ge> nv \<and> ia)"
  obtain x pool1 where sp: "splice1 (findMatching users ts vt pool ?m) pool = (x, pool1)"
    by (cases "splice1 (findMatching users ts vt pool ?m) pool") auto
  obtain xs pool2 where rec: "pickTeamUsers users ts vt ia nv is pool1 = (xs, pool2)"
    by (cases "pickTeamUsers users ts vt ia nv is pool1") auto
  from Cons.prems sp rec have e: "eff = x # xs" "pool' = pool2" by (auto simp: Let_def)
  from Cons.IH[OF rec] have ih: "mset (somes xs) + mset pool2 = mset pool1" "length xs = length is" by auto
  from splice1_mset[OF sp] have "mset (somes [x]) + mset pool1 = mset pool" .
  with ih e show ?case by (cases x) (auto simp: ac_simps)
qed

lemma chooseUsers_mset:
  "chooseUsers rnd g pool nv na c = (eff, pool', c') \<Longrightarrow>
     mset (somes eff) + mset pool' = mset pool \<and> length eff = nat (na + nv)"
  unfolding chooseUsers_def Let_def
  by (auto split: if_splits prod.splits dest!: pickTeamUsers_mset pickRandomUsers_mset)

section \<open>Effects on one player\<close>

text \<open>How replacing one player changes the number of the living.\<close>

lemma countLiving_append: "countLiving (xs @ ys) = countLiving xs + countLiving ys"
  by (simp add: countLiving_def)

lemma countLiving_update:
  assumes "u < length users"
  shows "int (countLiving (users[u := p'])) =
           int (countLiving users) - (if p_living (users ! u) then 1 else 0)
             + (if p_living p' then 1 else 0)"
proof -
  have a: "users[u := p'] = take u users @ p' # drop (Suc u) users"
    using assms by (rule upd_conv_take_nth_drop)
  have "users = take u users @ users ! u # drop (Suc u) users"
    using assms by (rule id_take_nth_drop)
  then have b: "countLiving users =
                  countLiving (take u users @ users ! u # drop (Suc u) users)" by simp
  show ?thesis
    unfolding a b by (simp add: countLiving_def)
qed

text \<open>The relation \<open>touched\<close> is reflexive, monotone in the set and transitive.\<close>

lemma touched_refl: "touched S g g"
  by (simp add: touched_def)

lemma touched_same_players:
  "includedUsers g' = includedUsers g \<Longrightarrow> numAlive g' = numAlive g \<Longrightarrow> options g' = options g
     \<Longrightarrow> touched S g g'"
  by (simp add: touched_def)

lemma touched_mono: "touched S g g' \<Longrightarrow> S \<subseteq> S' \<Longrightarrow> touched S' g g'"
  unfolding touched_def by blast

lemma touched_trans:
  assumes "touched S g g'" "touched S' g' g''"
  shows "touched (S \<union> S') g g''"
proof -
  from assms have len: "length (includedUsers g') = length (includedUsers g)"
    "length (includedUsers g'') = length (includedUsers g')"
    and opt: "options g'' = options g"
    and cnt: "numAlive g'' - int (countLiving (includedUsers g'')) =
                numAlive g - int (countLiving (includedUsers g))"
    and le: "numAlive g'' \<le> numAlive g"
    by (auto simp: touched_def)
  have pw: "p_id (includedUsers g'' ! j) = p_id (includedUsers g ! j) \<and>
         (j \<notin> S \<union> S' \<longrightarrow> includedUsers g'' ! j = includedUsers g ! j) \<and>
         (p_living (includedUsers g'' ! j) \<longrightarrow> p_living (includedUsers g ! j)) \<and>
         (\<not> p_living (includedUsers g'' ! j) \<and> p_bleeding (includedUsers g'' ! j)
            \<longrightarrow> \<not> p_living (includedUsers g ! j) \<and> p_bleeding (includedUsers g ! j))"
    if j: "j < length (includedUsers g)" for j
  proof -
    from assms(1) j have 1: "p_id (includedUsers g' ! j) = p_id (includedUsers g ! j)"
      "j \<notin> S \<longrightarrow> includedUsers g' ! j = includedUsers g ! j"
      "p_living (includedUsers g' ! j) \<longrightarrow> p_living (includedUsers g ! j)"
      "\<not> p_living (includedUsers g' ! j) \<and> p_bleeding (includedUsers g' ! j)
            \<longrightarrow> \<not> p_living (includedUsers g ! j) \<and> p_bleeding (includedUsers g ! j)"
      by (auto simp: touched_def)
    from j len have j': "j < length (includedUsers g')" by simp
    from assms(2) j' have 2: "p_id (includedUsers g'' ! j) = p_id (includedUsers g' ! j)"
      "j \<notin> S' \<longrightarrow> includedUsers g'' ! j = includedUsers g' ! j"
      "p_living (includedUsers g'' ! j) \<longrightarrow> p_living (includedUsers g' ! j)"
      "\<not> p_living (includedUsers g'' ! j) \<and> p_bleeding (includedUsers g'' ! j)
            \<longrightarrow> \<not> p_living (includedUsers g' ! j) \<and> p_bleeding (includedUsers g' ! j)"
      by (auto simp: touched_def)
    from 1 2 show ?thesis by auto
  qed
  from len opt cnt le pw show ?thesis
    unfolding touched_def by simp
qed

text \<open>
  Replacing one player by a player with the same id that is not revived, with the
  alive counter lowered by one exactly if the player died.
\<close>

lemma touched_player_update:
  assumes u: "u < length (includedUsers g)"
      and id: "p_id p' = p_id (includedUsers g ! u)"
      and lv: "p_living p' \<longrightarrow> p_living (includedUsers g ! u)"
      and bl: "\<not> p_living p' \<and> p_bleeding p'
                 \<longrightarrow> \<not> p_living (includedUsers g ! u) \<and> p_bleeding (includedUsers g ! u)"
      and opt: "options g' = options g"
      and us: "includedUsers g' = (includedUsers g)[u := p']"
      and na: "numAlive g' =
                 numAlive g - (if p_living (includedUsers g ! u) \<and> \<not> p_living p' then 1 else 0)"
  shows "touched {u} g g'"
proof -
  from countLiving_update[OF u, of p'] lv na us
  have cnt: "numAlive g' - int (countLiving (includedUsers g')) =
               numAlive g - int (countLiving (includedUsers g))"
    by (auto split: if_splits)
  from na have le: "numAlive g' \<le> numAlive g" by simp
  show ?thesis
    unfolding touched_def
    using u id lv bl opt us cnt le
    by (auto simp: nth_list_update)
qed

text \<open>What the relation keeps.\<close>

lemma touched_distinctIds: "touched S g g' \<Longrightarrow> distinctIds g \<Longrightarrow> distinctIds g'"
proof -
  assume t: "touched S g g'" and d: "distinctIds g"
  from t have "map p_id (includedUsers g') = map p_id (includedUsers g)"
    by (auto simp: touched_def intro!: nth_equalityI)
  with d show ?thesis by (simp add: distinctIds_def)
qed

lemma touched_aliveSynced: "touched S g g' \<Longrightarrow> aliveSynced g \<Longrightarrow> aliveSynced g'"
  by (auto simp: touched_def aliveSynced_def)

lemma touched_deadNotBleeding: "touched S g g' \<Longrightarrow> deadNotBleeding g \<Longrightarrow> deadNotBleeding g'"
  unfolding touched_def deadNotBleeding_def list_all_length by metis

text \<open>
  With pairwise different ids, \<open>effectUser\<close> finds the player it was given and
  changes nothing but that player's bleeding flag and kill count.
\<close>

lemma effectUser_SomeD:
  assumes d: "distinctIds g" and e: "effectUser g eff i k = Some (j, g1)"
  shows "target eff i = Some j \<and> j < length (includedUsers g) \<and>
         (\<exists>p'. g1 = g\<lparr>includedUsers := (includedUsers g)[j := p']\<rparr> \<and>
               p_id p' = p_id (includedUsers g ! j) \<and>
               p_living p' = p_living (includedUsers g ! j) \<and>
               (p_bleeding p' \<longrightarrow> p_bleeding (includedUsers g ! j) \<or>
                                   p_state (includedUsers g ! j) = ''wounded''))"
proof -
  from e obtain u where t: "at_index eff i = Some (Some u)"
    by (auto simp: effectUser_def split: option.splits)
  with e have ul: "u < length (includedUsers g)"
    by (auto simp: effectUser_def at_index_def split: option.splits if_splits)
  from findIndex_own_id[OF d[unfolded distinctIds_def] ul]
  have fi: "findIndex (\<lambda>obj. p_id obj = p_id (includedUsers g ! u)) (includedUsers g) = int u" .
  from e t ul fi have j: "j = u"
    by (auto simp: effectUser_def at_index_def Let_def split: if_splits)
  from e t ul fi j show ?thesis
    by (auto simp: effectUser_def at_index_def target_def Let_def split: if_splits)
qed

text \<open>
  One outcome applied to a living participant: only that player changes, and the alive
  counter drops by one exactly for the outcome dies.
\<close>

lemma applyOutcome_touched:
  assumes d: "distinctIds g"
      and a: "applyOutcome g eff outcome i k = Some g'"
      and lv: "\<And>u. target eff i = Some u \<Longrightarrow> u < length (includedUsers g) \<Longrightarrow> p_living (includedUsers g ! u)"
  shows "\<exists>u. target eff i = Some u \<and> touched {u} g g' \<and>
             numAlive g' = numAlive g - (if outcome = ''dies'' then 1 else 0)"
proof -
  from a obtain j g1 where e: "effectUser g eff i k = Some (j, g1)"
    by (auto simp: applyOutcome_def killUser_def woundUser_def restoreUser_def
             split: if_splits option.splits)
  from effectUser_SomeD[OF d e] obtain p' where
    t: "target eff i = Some j" and jl: "j < length (includedUsers g)"
    and g1: "g1 = g\<lparr>includedUsers := (includedUsers g)[j := p']\<rparr>"
    and pid: "p_id p' = p_id (includedUsers g ! j)"
    and pl: "p_living p' = p_living (includedUsers g ! j)" by blast
  from lv[OF t jl] have liv: "p_living (includedUsers g ! j)" .
  have "touched {j} g g' \<and> numAlive g' = numAlive g - (if outcome = ''dies'' then 1 else 0)"
  proof (cases "outcome = ''dies''")
    case True
    with a e have k: "killUser g eff i k = Some g'" by (simp add: applyOutcome_def)
    let ?dead = "((includedUsers g1) ! j)\<lparr>p_living := False, p_bleeding := False,
                                      p_state := ''dead'', p_rank := numAlive g1\<rparr>"
    from k e have us: "includedUsers g' = (includedUsers g1)[j := ?dead]"
      and na: "numAlive g' = numAlive g1 - 1" and op: "options g' = options g1"
      by (auto simp: killUser_def Let_def split: if_splits)
    from us g1 have us': "includedUsers g' = (includedUsers g)[j := ?dead]" by simp
    from jl g1 pid have "p_id ?dead = p_id (includedUsers g ! j)" by simp
    from touched_player_update[OF jl this _ _ _ us'] liv na op g1 True
    show ?thesis by simp
  next
    case False
    with a e obtain p'' where us: "includedUsers g' = (includedUsers g1)[j := p'']"
      and p'': "p_id p'' = p_id (includedUsers g1 ! j)" "p_living p'' = p_living (includedUsers g1 ! j)"
      and na: "numAlive g' = numAlive g1" and op: "options g' = options g1"
      by (auto simp: applyOutcome_def woundUser_def restoreUser_def jl g1 split: if_splits)
    from us g1 have us': "includedUsers g' = (includedUsers g)[j := p'']" by simp
    from p'' g1 jl pid pl have q: "p_id p'' = p_id (includedUsers g ! j)" "p_living p''" using liv by simp_all
    from touched_player_update[OF jl q(1) _ _ _ us'] q(2) liv na op g1 False
    show ?thesis by simp
  qed
  with t show ?thesis by blast
qed

section \<open>Effects of one event\<close>

lemma touched_dayEvents:
  "touched S g g' \<Longrightarrow> touched S g (g'\<lparr>dayEvents := x\<rparr>)"
  by (simp add: touched_def)

lemma touched_from_teams:
  "touched S (g\<lparr>teams := ts\<rparr>) g' \<Longrightarrow> touched S g g'"
  by (simp add: touched_def)

lemma touched_unchanged:
  "touched S g g' \<Longrightarrow> u \<notin> S \<Longrightarrow> u < length (includedUsers g)
     \<Longrightarrow> includedUsers g' ! u = includedUsers g ! u"
  by (simp add: touched_def)

lemma touched_length: "touched S g g' \<Longrightarrow> length (includedUsers g') = length (includedUsers g)"
  by (simp add: touched_def)

lemma touched_options: "touched S g g' \<Longrightarrow> options g' = options g"
  by (simp add: touched_def)

lemma touched_numAlive_le: "touched S g g' \<Longrightarrow> numAlive g' \<le> numAlive g"
  by (simp add: touched_def)

text \<open>
  One of the two loops over the participants, when the references at the positions are
  pairwise different and point to living players.
\<close>

lemma applyEffects_touched:
  assumes "distinctIds g"
      and "distinct (somes (map (target eff) is))"
      and "\<forall>u \<in> set (somes (map (target eff) is)).
             u < length (includedUsers g) \<and> p_living (includedUsers g ! u)"
  shows "\<exists>g'. (applyEffects g eff outcome k is = Inl g' \<or> applyEffects g eff outcome k is = Inr g') \<and>
              touched (set (somes (map (target eff) is))) g g' \<and>
              numAlive g - (if outcome = ''dies'' then int (length is) else 0) \<le> numAlive g'"
  using assms
proof (induction "is" arbitrary: g)
  case Nil
  then show ?case by (simp add: touched_refl)
next
  case (Cons i "is")
  let ?S = "set (somes (map (target eff) (i # is)))"
  show ?case
  proof (cases "applyOutcome g eff outcome i k")
    case None
    then have "applyEffects g eff outcome k (i # is) = Inl g" by simp
    then show ?thesis using touched_refl[of ?S g] by auto
  next
    case (Some g1)
    have lv: "\<And>u. target eff i = Some u \<Longrightarrow> u < length (includedUsers g)
                 \<Longrightarrow> p_living (includedUsers g ! u)"
      using Cons.prems(3) by simp
    from applyOutcome_touched[OF Cons.prems(1) Some lv] obtain u where
      t: "target eff i = Some u" and tu: "touched {u} g g1"
      and na: "numAlive g1 = numAlive g - (if outcome = ''dies'' then 1 else 0)" by blast
    let ?R = "somes (map (target eff) is)"
    from t have sm: "somes (map (target eff) (i # is)) = u # ?R" by simp
    from Cons.prems(2) sm have un: "u \<notin> set ?R" and dr: "distinct ?R" by auto
    have d1: "distinctIds g1" using tu Cons.prems(1) by (rule touched_distinctIds)
    have l1: "\<forall>u' \<in> set ?R. u' < length (includedUsers g1) \<and> p_living (includedUsers g1 ! u')"
    proof
      fix u' assume m: "u' \<in> set ?R"
      with Cons.prems(3) sm have a: "u' < length (includedUsers g)" "p_living (includedUsers g ! u')"
        by auto
      from m un have "u' \<notin> {u}" by auto
      from touched_unchanged[OF tu this a(1)] touched_length[OF tu] a
      show "u' < length (includedUsers g1) \<and> p_living (includedUsers g1 ! u')" by simp
    qed
    from Cons.IH[OF d1 dr l1] obtain g' where
      r: "applyEffects g1 eff outcome k is = Inl g' \<or> applyEffects g1 eff outcome k is = Inr g'"
      and tr: "touched (set ?R) g1 g'"
      and nb: "numAlive g1 - (if outcome = ''dies'' then int (length is) else 0) \<le> numAlive g'"
      by blast
    from touched_trans[OF tu tr] sm have "touched ?S g g'" by simp
    moreover from r Some have "applyEffects g eff outcome k (i # is) = Inl g' \<or>
                               applyEffects g eff outcome k (i # is) = Inr g'" by simp
    moreover from na nb have "numAlive g - (if outcome = ''dies'' then int (length (i # is)) else 0)
                               \<le> numAlive g'" by (simp split: if_splits)
    ultimately show ?thesis by blast
  qed
qed

lemma map_target_upt:
  assumes "b \<le> length eff"
  shows "map (target eff) [a..<b] = take (b - a) (drop a eff)"
proof (rule nth_equalityI)
  show "length (map (target eff) [a..<b]) = length (take (b - a) (drop a eff))"
    using assms by simp
next
  fix i assume "i < length (map (target eff) [a..<b])"
  then have i: "i < b - a" by simp
  with assms have "a + i < length eff" by simp
  with i show "map (target eff) [a..<b] ! i = take (b - a) (drop a eff) ! i"
    by (simp add: target_def at_index_def)
qed

lemma poolOk_nth:
  "poolOk users pool \<Longrightarrow> u \<in> set pool \<Longrightarrow> u < length users \<and> p_living (users ! u)"
  by (auto simp: poolOk_def list_all_iff)

text \<open>
  An accepted event changes only players of the pool, lowers the alive counter by at
  most the deaths the template deals, and leaves a pool of living players untouched so
  far.
\<close>

lemma applyEvent_touched:
  assumes d: "distinctIds g" and p: "poolOk (includedUsers g) pool"
      and nv: "0 \<le> nv" and na: "0 \<le> na"
  shows "\<exists>g'. touched (set pool) g g' \<and>
              numAlive g - ((if s_outcome (ev_victim ev) = ''dies'' then nv else 0) +
                            (if s_outcome (ev_attacker ev) = ''dies'' then na else 0)) \<le> numAlive g' \<and>
              ((\<exists>c'. applyEvent env rnd g pool ev nv na c = Inl (g', c')) \<or>
               (\<exists>pool' c'. applyEvent env rnd g pool ev nv na c = Inr (g', pool', c') \<and>
                           poolOk (includedUsers g') pool'))"
proof -
  obtain eff pool1 c1 where ch: "chooseUsers rnd g pool nv na c = (eff, pool1, c1)"
    by (cases "chooseUsers rnd g pool nv na c") auto
  from chooseUsers_mset[OF ch]
  have ms: "mset (somes eff) + mset pool1 = mset pool" and len: "length eff = nat (na + nv)" by auto
  from ms have ms': "mset (somes eff @ pool1) = mset pool" by simp
  from p have dp: "distinct pool" by (simp add: poolOk_def)
  from ms' dp have dall: "distinct (somes eff @ pool1)" by (metis mset_eq_imp_distinct_iff)
  from ms' have sall: "set (somes eff @ pool1) = set pool" by (rule mset_eq_setD)
  let ?V = "somes (take (nat nv) eff)" and ?A = "somes (drop (nat nv) eff)"
  have VA: "?V @ ?A = somes eff" by (simp add: somes_append[symmetric])
  from nv na len have nvl: "nat nv \<le> length eff" and nal: "nat (nv + na) \<le> length eff" by auto
  have tv: "map (target eff) [0..<nat nv] = take (nat nv) eff"
    using map_target_upt[OF nvl, of 0] by simp
  have ta: "map (target eff) [nat nv..<nat (nv + na)] = drop (nat nv) eff"
    using map_target_upt[OF nal, of "nat nv"] len nv na by (simp add: nat_add_distrib add.commute)
  from dall VA have dV: "distinct ?V" and dA: "distinct ?A" and dj: "set ?V \<inter> set ?A = {}"
    by (metis distinct_append)+
  from sall VA have sub: "set ?V \<subseteq> set pool" "set ?A \<subseteq> set pool" "set pool1 \<subseteq> set pool"
    by (metis Un_iff set_append subsetI)+
  let ?vo = "s_outcome (ev_victim ev)" and ?ao = "s_outcome (ev_attacker ev)"
  let ?vk = "if s_killer (ev_victim ev) then na else 0"
  let ?ak = "if s_killer (ev_attacker ev) then nv else 0"
  have lV: "\<forall>u \<in> set (somes (map (target eff) [0..<nat nv])).
              u < length (includedUsers g) \<and> p_living (includedUsers g ! u)"
    using sub(1) poolOk_nth[OF p] by (auto simp: tv)
  from applyEffects_touched[OF d _ lV, of ?vo ?vk] dV tv obtain g1 where
    r1: "applyEffects g eff ?vo ?vk [0..<nat nv] = Inl g1 \<or>
         applyEffects g eff ?vo ?vk [0..<nat nv] = Inr g1"
    and t1: "touched (set ?V) g g1"
    and n1: "numAlive g - (if ?vo = ''dies'' then int (length [0..<nat nv]) else 0) \<le> numAlive g1"
    by auto
  from n1 nv have n1': "numAlive g - (if ?vo = ''dies'' then nv else 0) \<le> numAlive g1"
    by (simp split: if_splits)
  from r1 show ?thesis
  proof
    assume "applyEffects g eff ?vo ?vk [0..<nat nv] = Inl g1"
    with ch have "applyEvent env rnd g pool ev nv na c = Inl (g1, c1)"
      by (simp add: applyEvent_def)
    moreover from touched_mono[OF t1 sub(1)] have "touched (set pool) g g1" .
    moreover from n1' na have "numAlive g - ((if ?vo = ''dies'' then nv else 0) +
                            (if ?ao = ''dies'' then na else 0)) \<le> numAlive g1" by auto
    ultimately show ?thesis by blast
  next
    assume r1': "applyEffects g eff ?vo ?vk [0..<nat nv] = Inr g1"
    have d1: "distinctIds g1" using t1 d by (rule touched_distinctIds)
    have lA: "\<forall>u \<in> set (somes (map (target eff) [nat nv..<nat (nv + na)])).
              u < length (includedUsers g1) \<and> p_living (includedUsers g1 ! u)"
    proof
      fix u assume "u \<in> set (somes (map (target eff) [nat nv..<nat (nv + na)]))"
      then have uA: "u \<in> set ?A" by (simp add: ta)
      with sub(2) poolOk_nth[OF p] have a: "u < length (includedUsers g)" "p_living (includedUsers g ! u)"
        by auto
      from uA dj have "u \<notin> set ?V" by auto
      from touched_unchanged[OF t1 this a(1)] touched_length[OF t1] a
      show "u < length (includedUsers g1) \<and> p_living (includedUsers g1 ! u)" by simp
    qed
    from applyEffects_touched[OF d1 _ lA, of ?ao ?ak] dA ta obtain g2 where
      r2: "applyEffects g1 eff ?ao ?ak [nat nv..<nat (nv + na)] = Inl g2 \<or>
           applyEffects g1 eff ?ao ?ak [nat nv..<nat (nv + na)] = Inr g2"
      and t2: "touched (set ?A) g1 g2"
      and n2: "numAlive g1 - (if ?ao = ''dies'' then int (length [nat nv..<nat (nv + na)]) else 0)
                 \<le> numAlive g2"
      by auto
    from n2 nv na have n2': "numAlive g1 - (if ?ao = ''dies'' then na else 0) \<le> numAlive g2"
      by (simp add: nat_add_distrib split: if_splits)
    from n1' n2' have nb: "numAlive g - ((if ?vo = ''dies'' then nv else 0) +
                            (if ?ao = ''dies'' then na else 0)) \<le> numAlive g2" by auto
    from touched_trans[OF t1 t2] have t12: "touched (set ?V \<union> set ?A) g g2" .
    have VAs: "set ?V \<union> set ?A = set (somes eff)" using VA by (metis set_append)
    from sub VAs have sube: "set (somes eff) \<subseteq> set pool" by auto
    from touched_mono[OF t12] sub have tp: "touched (set pool) g g2" by auto
    have pk: "poolOk (includedUsers g2) pool1"
    proof -
      from dall have dp1: "distinct pool1" and dj1: "set (somes eff) \<inter> set pool1 = {}" by auto
      have "\<forall>u \<in> set pool1. u < length (includedUsers g2) \<and> p_living (includedUsers g2 ! u)"
      proof
        fix u assume u1: "u \<in> set pool1"
        with sub(3) poolOk_nth[OF p] have a: "u < length (includedUsers g)" "p_living (includedUsers g ! u)"
          by auto
        from u1 dj1 VAs have "u \<notin> set ?V \<union> set ?A" by auto
        from touched_unchanged[OF t12 this a(1)] touched_length[OF t12] a
        show "u < length (includedUsers g2) \<and> p_living (includedUsers g2 ! u)" by simp
      qed
      with dp1 show ?thesis by (simp add: poolOk_def list_all_iff)
    qed
    from r2 show ?thesis
    proof
      assume "applyEffects g1 eff ?ao ?ak [nat nv..<nat (nv + na)] = Inl g2"
      with ch r1' have "applyEvent env rnd g pool ev nv na c = Inl (g2, c1)"
        by (simp add: applyEvent_def)
      with tp nb show ?thesis by blast
    next
      assume r2': "applyEffects g1 eff ?ao ?ak [nat nv..<nat (nv + na)] = Inr g2"
      show ?thesis
      proof (cases "makeSingleEvent env g2 (ev_message ev) eff nv na (mentionAll (options g2)) c1")
        case None
        with ch r1' r2' have "applyEvent env rnd g pool ev nv na c = Inl (g2, c1)"
          by (simp add: applyEvent_def)
        with tp nb show ?thesis by blast
      next
        case (Some fc)
        obtain fe c2 where fc: "fc = (fe, c2)" by (cases fc)
        let ?g3 = "g2\<lparr>dayEvents := dayEvents g2 @ [fe]\<rparr>"
        from Some fc ch r1' r2' have "applyEvent env rnd g pool ev nv na c = Inr (?g3, pool1, c2)"
          by (simp add: applyEvent_def)
        moreover from touched_dayEvents[OF tp] have "touched (set pool) g ?g3" .
        moreover from pk have "poolOk (includedUsers ?g3) pool1" by simp
        moreover from nb have "numAlive g - ((if ?vo = ''dies'' then nv else 0) +
                            (if ?ao = ''dies'' then na else 0)) \<le> numAlive ?g3" by simp
        ultimately show ?thesis by blast
      qed
    qed
  qed
qed

section \<open>The event loop and the bleed pass\<close>

lemma touched_teams:
  "touched S g g' \<Longrightarrow> touched S g (g'\<lparr>teams := x\<rparr>)"
  by (simp add: touched_def)

lemma touched_dayState:
  "touched S g g' \<Longrightarrow> touched S g (g'\<lparr>dayState := x\<rparr>)"
  by (simp add: touched_def)

lemma allDeadCheck_False:
  "\<not> allDeadCheck g ev nv na \<Longrightarrow> \<not> allowNoVictors (options g) \<Longrightarrow>
     1 \<le> numAlive g - ((if s_outcome (ev_victim ev) = ''dies'' then nv else 0) +
                        (if s_outcome (ev_attacker ev) = ''dies'' then na else 0))"
  by (auto simp: allDeadCheck_def Let_def split: if_splits)

text \<open>
  The event loop, stopped after any number of passes: the game it has reached is related
  to the game it started from, and with "allow no victors" off the alive counter has
  not fallen below 1.
\<close>

lemma eventLoop_touched:
  assumes "distinctIds g" "poolOk (includedUsers g) pool"
  shows "(\<exists>S. touched S g (loopGame (eventLoop n m env rnd g evs pool loop c))) \<and>
         (\<not> allowNoVictors (options g) \<longrightarrow> 1 \<le> numAlive g \<longrightarrow>
            1 \<le> numAlive (loopGame (eventLoop n m env rnd g evs pool loop c)))"
  using assms
proof (induction n arbitrary: g pool loop c)
  case 0
  then show ?case by (cases pool) (auto intro: touched_refl)
next
  case (Suc n)
  show ?case
  proof (cases pool)
    case Nil
    then show ?thesis by (auto intro: touched_refl)
  next
    case (Cons u us)
    show ?thesis
    proof (cases "selectEvent m rnd g evs pool (loop + 1) c")
      case SelectionUnfinished
      with Cons show ?thesis by (auto intro: touched_refl)
    next
      case (Aborted c1)
      with Cons have "eventLoop (Suc n) m env rnd g evs pool loop c = LoopAborted (g\<lparr>dayState := 0\<rparr>) c1"
        by simp
      then show ?thesis using touched_dayState[OF touched_refl, of "{}" g 0] by auto
    next
      case (Rejected ts c1)
      let ?g = "g\<lparr>teams := ts\<rparr>"
      from Rejected Cons have e: "eventLoop (Suc n) m env rnd g evs pool loop c =
                                    eventLoop n m env rnd ?g evs pool (loop + 1) c1" by simp
      from Suc.prems have d: "distinctIds ?g" and p: "poolOk (includedUsers ?g) pool"
        by (simp_all add: distinctIds_def)
      from Suc.IH[OF d p, of "loop + 1" c1] obtain S where
        t: "touched S ?g (loopGame (eventLoop n m env rnd ?g evs pool (loop + 1) c1))"
        and s: "\<not> allowNoVictors (options ?g) \<longrightarrow> 1 \<le> numAlive ?g \<longrightarrow>
            1 \<le> numAlive (loopGame (eventLoop n m env rnd ?g evs pool (loop + 1) c1))"
        by blast
      from touched_from_teams[OF t] s e show ?thesis by auto
    next
      case (Accepted ev nv na ts c1)
      let ?g = "g\<lparr>teams := ts\<rparr>"
      from selectEvent_AcceptedD[OF Accepted]
      have ad: "\<not> allDeadCheck g ev nv na" and nn: "0 \<le> nv" "0 \<le> na" by auto
      from Suc.prems have d: "distinctIds ?g" and p: "poolOk (includedUsers ?g) pool"
        by (simp_all add: distinctIds_def)
      let ?K = "(if s_outcome (ev_victim ev) = ''dies'' then nv else 0) +
                (if s_outcome (ev_attacker ev) = ''dies'' then na else 0)"
      from applyEvent_touched[OF d p nn, of ev env rnd c1] obtain g1 where
        t1: "touched (set pool) ?g g1"
        and n1: "numAlive ?g - ?K \<le> numAlive g1"
        and r: "(\<exists>c'. applyEvent env rnd ?g pool ev nv na c1 = Inl (g1, c')) \<or>
               (\<exists>pool' c'. applyEvent env rnd ?g pool ev nv na c1 = Inr (g1, pool', c') \<and>
                           poolOk (includedUsers g1) pool')" by blast
      from touched_from_teams[OF t1] have t1': "touched (set pool) g g1" .
      have s1: "\<not> allowNoVictors (options g) \<longrightarrow> 1 \<le> numAlive g1"
        using allDeadCheck_False[OF ad, of] n1 by auto
      from r show ?thesis
      proof
        assume "\<exists>c'. applyEvent env rnd ?g pool ev nv na c1 = Inl (g1, c')"
        then obtain c' where "applyEvent env rnd ?g pool ev nv na c1 = Inl (g1, c')" ..
        with Accepted Cons have "eventLoop (Suc n) m env rnd g evs pool loop c = LoopThrown g1 c'"
          by simp
        with t1' s1 show ?thesis by auto
      next
        assume "\<exists>pool' c'. applyEvent env rnd ?g pool ev nv na c1 = Inr (g1, pool', c') \<and>
                           poolOk (includedUsers g1) pool'"
        then obtain pool' c' where a: "applyEvent env rnd ?g pool ev nv na c1 = Inr (g1, pool', c')"
          and p1: "poolOk (includedUsers g1) pool'" by blast
        from a Accepted Cons have e: "eventLoop (Suc n) m env rnd g evs pool loop c =
                                        eventLoop n m env rnd g1 evs pool' 0 c'" by simp
        have d1: "distinctIds g1" using t1' Suc.prems(1) by (rule touched_distinctIds)
        from Suc.IH[OF d1 p1, of 0 c'] obtain S where
          t: "touched S g1 (loopGame (eventLoop n m env rnd g1 evs pool' 0 c'))"
          and s: "\<not> allowNoVictors (options g1) \<longrightarrow> 1 \<le> numAlive g1 \<longrightarrow>
            1 \<le> numAlive (loopGame (eventLoop n m env rnd g1 evs pool' 0 c'))"
          by blast
        from touched_trans[OF t1' t] have "\<exists>S. touched S g (loopGame (eventLoop n m env rnd g1 evs pool' 0 c'))"
          by blast
        moreover from s s1 touched_options[OF t1'] have "\<not> allowNoVictors (options g) \<longrightarrow> 1 \<le> numAlive g \<longrightarrow>
            1 \<le> numAlive (loopGame (eventLoop n m env rnd g1 evs pool' 0 c'))" by simp
        ultimately show ?thesis using e by simp
      qed
    qed
  qed
qed

text \<open>
  The bleed pass visits each position once; a living player it has visited is not
  bleeding afterwards.
\<close>

lemma bleedPass_touched:
  assumes "distinct is" "\<forall>i \<in> set is. i < length (includedUsers g)"
  shows "\<exists>g'. touched (set is) g g' \<and>
              (\<not> allowNoVictors (options g) \<longrightarrow> 1 \<le> numAlive g \<longrightarrow> 1 \<le> numAlive g') \<and>
              ((\<exists>c'. bleedPass rnd g is bl rc c = Inl (g', c')) \<or>
               (\<exists>bl' rc' c'. bleedPass rnd g is bl rc c = Inr (g', bl', rc', c') \<and>
                  (\<forall>j \<in> set is. p_living (includedUsers g ! j) \<longrightarrow> \<not> p_bleeding (includedUsers g' ! j))))"
  using assms
proof (induction "is" arbitrary: g bl rc c)
  case Nil
  then show ?case by (auto intro: touched_refl)
next
  case (Cons i "is")
  let ?users = "includedUsers g" and ?obj = "includedUsers g ! i"
  from Cons.prems have il: "i < length ?users" and ni: "i \<notin> set is" and di: "distinct is"
    and al: "\<forall>j \<in> set is. j < length ?users" by auto
  have step: "\<exists>g'. touched (set (i # is)) g g' \<and>
              (\<not> allowNoVictors (options g) \<longrightarrow> 1 \<le> numAlive g \<longrightarrow> 1 \<le> numAlive g') \<and>
              ((\<exists>c'. bleedPass rnd g1 is bl1 rc1 c1 = Inl (g', c')) \<or>
               (\<exists>bl' rc' c'. bleedPass rnd g1 is bl1 rc1 c1 = Inr (g', bl', rc', c') \<and>
                  (\<forall>j \<in> set (i # is). p_living (includedUsers g ! j) \<longrightarrow> \<not> p_bleeding (includedUsers g' ! j))))"
    if t1: "touched {i} g g1" and s1: "\<not> allowNoVictors (options g) \<longrightarrow> 1 \<le> numAlive g \<longrightarrow> 1 \<le> numAlive g1"
      and b1: "p_living ?obj \<longrightarrow> \<not> p_bleeding (includedUsers g1 ! i)"
    for g1 bl1 rc1 c1
  proof -
    from al touched_length[OF t1] have al1: "\<forall>j \<in> set is. j < length (includedUsers g1)" by simp
    from Cons.IH[OF di al1, of bl1 rc1 c1] obtain g' where
      t: "touched (set is) g1 g'"
      and s: "\<not> allowNoVictors (options g1) \<longrightarrow> 1 \<le> numAlive g1 \<longrightarrow> 1 \<le> numAlive g'"
      and r: "(\<exists>c'. bleedPass rnd g1 is bl1 rc1 c1 = Inl (g', c')) \<or>
               (\<exists>bl' rc' c'. bleedPass rnd g1 is bl1 rc1 c1 = Inr (g', bl', rc', c') \<and>
                  (\<forall>j \<in> set is. p_living (includedUsers g1 ! j) \<longrightarrow> \<not> p_bleeding (includedUsers g' ! j)))"
      by blast
    from touched_trans[OF t1 t] have tt: "touched (set (i # is)) g g'" by simp
    from s s1 touched_options[OF t1] have ss: "\<not> allowNoVictors (options g) \<longrightarrow> 1 \<le> numAlive g \<longrightarrow> 1 \<le> numAlive g'"
      by simp
    have keep_i: "includedUsers g' ! i = includedUsers g1 ! i"
      using touched_unchanged[OF t ni] il touched_length[OF t1] by simp
    have keep_j: "includedUsers g1 ! j = includedUsers g ! j" if "j \<in> set is" for j
      using touched_unchanged[OF t1, of j] that ni al by auto
    from r show ?thesis
    proof
      assume "\<exists>c'. bleedPass rnd g1 is bl1 rc1 c1 = Inl (g', c')"
      with tt ss show ?thesis by blast
    next
      assume "\<exists>bl' rc' c'. bleedPass rnd g1 is bl1 rc1 c1 = Inr (g', bl', rc', c') \<and>
                  (\<forall>j \<in> set is. p_living (includedUsers g1 ! j) \<longrightarrow> \<not> p_bleeding (includedUsers g' ! j))"
      then obtain bl' rc' c' where e: "bleedPass rnd g1 is bl1 rc1 c1 = Inr (g', bl', rc', c')"
        and cl: "\<forall>j \<in> set is. p_living (includedUsers g1 ! j) \<longrightarrow> \<not> p_bleeding (includedUsers g' ! j)"
        by blast
      have "\<forall>j \<in> set (i # is). p_living (includedUsers g ! j) \<longrightarrow> \<not> p_bleeding (includedUsers g' ! j)"
        using cl keep_i keep_j b1 by auto
      with e tt ss show ?thesis by blast
    qed
  qed
  show ?case
  proof (cases "p_bleeding ?obj \<and> p_living ?obj")
    case False
    then have e: "bleedPass rnd g (i # is) bl rc c = bleedPass rnd g is bl rc c"
      by (auto simp: Let_def)
    from False have "p_living ?obj \<longrightarrow> \<not> p_bleeding (includedUsers g ! i)" by auto
    from step[OF touched_refl _ this, of bl rc c] e show ?thesis by simp
  next
    case True
    show ?thesis
    proof (cases "random_below (Math_random rnd c) (probabilityOfBleedToDeath (options g)) \<and>
                  (allowNoVictors (options g) \<or> numAlive g > 1)")
      case dies: True
      let ?dead = "?obj\<lparr>p_living := False, p_bleeding := False, p_state := ''dead'', p_rank := numAlive g\<rparr>"
      let ?g1 = "g\<lparr>includedUsers := ?users[i := ?dead], numAlive := numAlive g - 1\<rparr>"
      have t1: "touched {i} g ?g1"
        by (rule touched_player_update[OF il, of ?dead]) (use True in simp_all)
      have s1: "\<not> allowNoVictors (options g) \<longrightarrow> 1 \<le> numAlive g \<longrightarrow> 1 \<le> numAlive ?g1"
        using dies by auto
      show ?thesis
      proof (cases "findTeam (teams ?g1) (p_id ?obj) < 0")
        case True
        with dies \<open>p_bleeding ?obj \<and> p_living ?obj\<close>
        have "bleedPass rnd g (i # is) bl rc c = Inl (?g1, c + 1)" by (simp add: Let_def)
        moreover from touched_mono[OF t1, of "set (i # is)"] have "touched (set (i # is)) g ?g1" by simp
        ultimately show ?thesis using s1 by blast
      next
        case False
        let ?g2 = "?g1\<lparr>teams := teamMemberDied (teams ?g1) (nat (findTeam (teams ?g1) (p_id ?obj)))\<rparr>"
        from False dies \<open>p_bleeding ?obj \<and> p_living ?obj\<close>
        have e: "bleedPass rnd g (i # is) bl rc c = bleedPass rnd ?g2 is (bl @ [Some i]) rc (c + 1)"
          by (simp add: Let_def)
        from touched_teams[OF t1] have t2: "touched {i} g ?g2" .
        from s1 have s2: "\<not> allowNoVictors (options g) \<longrightarrow> 1 \<le> numAlive g \<longrightarrow> 1 \<le> numAlive ?g2" by simp
        have b2: "p_living ?obj \<longrightarrow> \<not> p_bleeding (includedUsers ?g2 ! i)" using il by simp
        from step[OF t2 s2 b2, of "bl @ [Some i]" rc "c + 1"] e show ?thesis by simp
      qed
    next
      case recovers: False
      let ?rec = "?obj\<lparr>p_bleeding := False, p_state := ''normal''\<rparr>"
      let ?g1 = "g\<lparr>includedUsers := ?users[i := ?rec]\<rparr>"
      from recovers True
      have e: "bleedPass rnd g (i # is) bl rc c = bleedPass rnd ?g1 is bl (rc @ [Some i]) (c + 1)"
        by (auto simp: Let_def)
      have t1: "touched {i} g ?g1"
        by (rule touched_player_update[OF il, of ?rec]) (use True in simp_all)
      have b1: "p_living ?obj \<longrightarrow> \<not> p_bleeding (includedUsers ?g1 ! i)" using il by simp
      from step[OF t1 _ b1, of bl "rc @ [Some i]" "c + 1"] e show ?thesis by simp
    qed
  qed
qed

section \<open>The whole day and the reveal steps\<close>

text \<open>The resurrection revives one dead player and changes ranks only.\<close>

lemma countLiving_map:
  "(\<And>x. p_living (f x) = p_living x) \<Longrightarrow> countLiving (map f xs) = countLiving xs"
  by (induction xs) (auto simp: countLiving_def)

lemma resurrect_shape:
  assumes "resurrect env rnd g c = Inl (g', c') \<or> resurrect env rnd g c = Inr (g', c')"
  shows "options g' = options g \<and>
         ((includedUsers g' = includedUsers g \<and> numAlive g' = numAlive g) \<or>
          (\<exists>ri. ri < length (includedUsers g) \<and> \<not> p_living (includedUsers g ! ri) \<and>
                numAlive g' = numAlive g + 1 \<and>
                includedUsers g' = revive (includedUsers g) ri))"
proof -
  let ?users = "includedUsers g"
  let ?deadPool = "filter (\<lambda>i. \<not> p_living (?users ! i)) [0..<length ?users]"
  have dp: "ri < length ?users \<and> \<not> p_living (?users ! ri)" if "at_index ?deadPool k = Some ri" for k ri
  proof -
    from that have "k < length ?deadPool" "ri = ?deadPool ! k"
      by (auto simp: at_index_def split: if_splits)
    then have "ri \<in> set ?deadPool" by (metis nth_mem)
    then show ?thesis by simp
  qed
  from assms show ?thesis
    unfolding resurrect_def Let_def
    by (auto split: if_splits option.splits dest!: dp; blast)
qed

lemma revive_props:
  assumes ri: "ri < length users" and dead: "\<not> p_living (users ! ri)"
  shows "length (revive users ri) = length users"
    and "\<And>j. j < length users \<Longrightarrow>
           p_id (revive users ri ! j) = p_id (users ! j) \<and>
           p_bleeding (revive users ri ! j) = p_bleeding (users ! j) \<and>
           p_living (revive users ri ! j) = (p_living (users ! j) \<or> j = ri)"
    and "int (countLiving (revive users ri)) = int (countLiving users) + 1"
proof -
  let ?f = "\<lambda>obj. if \<not> p_living obj \<and> p_rank obj < p_rank (users ! ri)
                              then obj\<lparr>p_rank := p_rank obj + 1\<rparr> else obj"
  let ?u1 = "users[ri := (users ! ri)\<lparr>p_living := True, p_state := ''zombie''\<rparr>]"
  let ?u2 = "map ?f ?u1"
  let ?u3 = "?u2[ri := (?u2 ! ri)\<lparr>p_rank := 1\<rparr>]"
  have r: "revive users ri = ?u3" by (simp add: revive_def Let_def)
  show "length (revive users ri) = length users" by (simp add: r)
  show "p_id (revive users ri ! j) = p_id (users ! j) \<and>
           p_bleeding (revive users ri ! j) = p_bleeding (users ! j) \<and>
           p_living (revive users ri ! j) = (p_living (users ! j) \<or> j = ri)" if "j < length users" for j
    unfolding r using that ri by (auto simp: nth_list_update)
  have c1: "int (countLiving ?u1) = int (countLiving users) + 1"
    using countLiving_update[OF ri, of "(users ! ri)\<lparr>p_living := True, p_state := ''zombie''\<rparr>"]
      dead by simp
  have c2: "countLiving ?u2 = countLiving ?u1"
    by (rule countLiving_map) simp
  have r2: "ri < length ?u2" using ri by simp
  have l2: "p_living (?u2 ! ri)" using ri by simp
  have c3: "int (countLiving ?u3) = int (countLiving ?u2)"
    using countLiving_update[OF r2, of "(?u2 ! ri)\<lparr>p_rank := 1\<rparr>"] l2 by simp
  from c1 c2 c3 show "int (countLiving (revive users ri)) = int (countLiving users) + 1"
    unfolding r by simp
qed

lemma resurrect_keeps:
  assumes "resurrect env rnd g c = Inl (g', c') \<or> resurrect env rnd g c = Inr (g', c')"
  shows "options g' = options g \<and> numAlive g \<le> numAlive g' \<and>
         (distinctIds g \<longrightarrow> distinctIds g') \<and> (aliveSynced g \<longrightarrow> aliveSynced g') \<and>
         (deadNotBleeding g \<longrightarrow> deadNotBleeding g')"
proof -
  let ?users = "includedUsers g"
  from resurrect_shape[OF assms] have opt: "options g' = options g" by simp
  from resurrect_shape[OF assms] consider
    (same) "includedUsers g' = ?users" "numAlive g' = numAlive g"
  | (revived) ri where "ri < length ?users" "\<not> p_living (?users ! ri)" "numAlive g' = numAlive g + 1"
      "includedUsers g' = revive ?users ri"
    by blast
  then show ?thesis
  proof cases
    case same
    with opt show ?thesis
      by (simp add: distinctIds_def aliveSynced_def deadNotBleeding_def)
  next
    case revived
    note rp = revive_props[OF revived(1,2)]
    from rp(3) revived(3,4) have sync: "aliveSynced g \<longrightarrow> aliveSynced g'"
      by (simp add: aliveSynced_def)
    have ids: "map p_id (revive ?users ri) = map p_id ?users"
      by (rule nth_equalityI) (use rp(1,2) in simp_all)
    then have dist: "distinctIds g \<longrightarrow> distinctIds g'"
      using revived(4) by (simp add: distinctIds_def)
    have dnb: "deadNotBleeding g \<longrightarrow> deadNotBleeding g'"
      unfolding deadNotBleeding_def list_all_length revived(4)
      using rp(1,2) by (metis (no_types, lifting))
    from opt revived(3) sync dist dnb show ?thesis by simp
  qed
qed

lemma chooseEventPool_players:
  "chooseEventPool env rnd g c = Inr (evs, g', c') \<Longrightarrow>
     includedUsers g' = includedUsers g \<and> numAlive g' = numAlive g \<and> options g' = options g"
  unfolding chooseEventPool_def Let_def
  by (auto split: if_splits option.splits)

lemma chooseEventPool_thrown:
  "chooseEventPool env rnd g c = Inl (g', c') \<Longrightarrow> g' = g"
  unfolding chooseEventPool_def Let_def
  by (auto split: if_splits option.splits)

lemma pushSummary_players:
  "pushSummary env msg us (g, c) = Some (g', c') \<Longrightarrow>
     includedUsers g' = includedUsers g \<and> numAlive g' = numAlive g \<and> options g' = options g"
  unfolding pushSummary_def Let_def
  by (auto split: if_splits option.splits)

text \<open>The end of the day: the bleed pass and its two summary events.\<close>

lemma endOfDay_keeps:
  assumes "endOfDay env rnd g c = (r, g', c')"
  shows "(\<exists>S. touched S g g') \<and>
         (\<not> allowNoVictors (options g) \<longrightarrow> 1 \<le> numAlive g \<longrightarrow> 1 \<le> numAlive g') \<and>
         (deadNotBleeding g \<longrightarrow> r = DayBegun \<longrightarrow> noneBleeding g')"
proof -
  let ?is = "[0..<length (includedUsers g)]"
  have "distinct ?is" "\<forall>i \<in> set ?is. i < length (includedUsers g)" by auto
  from bleedPass_touched[OF this, of rnd "[]" "[]" c] obtain g1 where
    t: "touched (set ?is) g g1"
    and s: "\<not> allowNoVictors (options g) \<longrightarrow> 1 \<le> numAlive g \<longrightarrow> 1 \<le> numAlive g1"
    and b: "(\<exists>c'. bleedPass rnd g ?is [] [] c = Inl (g1, c')) \<or>
            (\<exists>bl' rc' c'. bleedPass rnd g ?is [] [] c = Inr (g1, bl', rc', c') \<and>
               (\<forall>j \<in> set ?is. p_living (includedUsers g ! j) \<longrightarrow> \<not> p_bleeding (includedUsers g1 ! j)))"
    by blast
  from b show ?thesis
  proof
    assume "\<exists>c'. bleedPass rnd g ?is [] [] c = Inl (g1, c')"
    with assms have "g' = g1" "r = TypeError" by (auto simp: endOfDay_def)
    with t s show ?thesis by auto
  next
    assume "\<exists>bl' rc' c'. bleedPass rnd g ?is [] [] c = Inr (g1, bl', rc', c') \<and>
               (\<forall>j \<in> set ?is. p_living (includedUsers g ! j) \<longrightarrow> \<not> p_bleeding (includedUsers g1 ! j))"
    then obtain bl' rc' c1 where e: "bleedPass rnd g ?is [] [] c = Inr (g1, bl', rc', c1)"
      and cl: "\<forall>j < length (includedUsers g). p_living (includedUsers g ! j) \<longrightarrow> \<not> p_bleeding (includedUsers g1 ! j)"
      by auto
    from assms e have same: "includedUsers g' = includedUsers g1 \<and> numAlive g' = numAlive g1 \<and> options g' = options g1"
      by (auto simp: endOfDay_def split: option.splits dest!: pushSummary_players)
    from t same have t': "touched (set ?is) g g'" by (simp add: touched_def)
    have nb: "noneBleeding g'" if dnb: "deadNotBleeding g"
    proof -
      have "\<not> p_bleeding (includedUsers g1 ! j)" if j: "j < length (includedUsers g)" for j
      proof (cases "p_living (includedUsers g ! j)")
        case True
        with cl j show ?thesis by simp
      next
        case False
        from dnb j have "p_living (includedUsers g ! j) \<or> \<not> p_bleeding (includedUsers g ! j)"
          by (simp add: deadNotBleeding_def list_all_length)
        with False t j show ?thesis by (auto simp: touched_def)
      qed
      with same touched_length[OF t] show ?thesis
        by (simp add: noneBleeding_def list_all_length)
    qed
    from t' s same nb show ?thesis by auto
  qed
qed

lemma living_pool_ok:
  "poolOk users (filter (\<lambda>i. p_living (users ! i)) [0..<length users])"
  by (simp add: poolOk_def list_all_iff)

text \<open>What a whole day keeps, whatever its result.\<close>

lemma simulateDay_keeps:
  assumes d: "distinctIds g" and sd: "simulateDay fuel env rnd g c = (r, g', c')"
  shows "distinctIds g' \<and> options g' = options g \<and> (aliveSynced g \<longrightarrow> aliveSynced g') \<and>
         (\<not> allowNoVictors (options g) \<longrightarrow> 1 \<le> numAlive g \<longrightarrow> 1 \<le> numAlive g') \<and>
         (deadNotBleeding g \<longrightarrow> deadNotBleeding g') \<and>
         (deadNotBleeding g \<longrightarrow> r = DayBegun \<longrightarrow> noneBleeding g')"
proof -
  let ?g1 = "g\<lparr>dayState := 1, dayNum := dayNum g + 1, dayEvents := []\<rparr>"
  let ?P = "\<lambda>g0 g'. distinctIds g' \<and> options g' = options g0 \<and> (aliveSynced g0 \<longrightarrow> aliveSynced g') \<and>
         (\<not> allowNoVictors (options g0) \<longrightarrow> 1 \<le> numAlive g0 \<longrightarrow> 1 \<le> numAlive g') \<and>
         (deadNotBleeding g0 \<longrightarrow> deadNotBleeding g')"
  have P1: "?P g ?g1" using d by (simp add: distinctIds_def aliveSynced_def deadNotBleeding_def)
  show ?thesis
  proof (cases "resurrect env rnd ?g1 c")
    case (Inl a)
    obtain g2 c2 where a: "a = (g2, c2)" by (cases a)
    with Inl sd have "g' = g2" "r = TypeError" by (simp_all add: simulateDay_def)
    with resurrect_keeps[of env rnd ?g1 c g2 c2] Inl a P1 show ?thesis by auto
  next
    case (Inr a)
    obtain g2 c2 where a: "a = (g2, c2)" by (cases a)
    from resurrect_keeps[of env rnd ?g1 c g2 c2] Inr a P1 have P2: "?P g g2" by auto
    let ?pool = "filter (\<lambda>i. p_living (includedUsers g2 ! i)) [0..<length (includedUsers g2)]"
    show ?thesis
    proof (cases "chooseEventPool env rnd g2 c2")
      case (Inl q)
      obtain g3 c3 where q: "q = (g3, c3)" by (cases q)
      from chooseEventPool_thrown[OF Inl[unfolded q]] have "g3 = g2" .
      with Inr a Inl q sd have "g' = g2" "r = TypeError" by (simp_all add: simulateDay_def Let_def)
      with P2 show ?thesis by auto
    next
      case Some: (Inr q)
      obtain evs g3 c3 where q: "q = (evs, g3, c3)" by (cases q)
      from chooseEventPool_players[OF Some[unfolded q]]
      have same: "includedUsers g3 = includedUsers g2" "numAlive g3 = numAlive g2" "options g3 = options g2"
        by auto
      with P2 have P3: "?P g g3" by (simp add: distinctIds_def aliveSynced_def deadNotBleeding_def)
      let ?lr = "eventLoop fuel fuel env rnd g3 evs ?pool 0 c3"
      from Inr a Some q sd have al: "afterLoop env rnd ?lr = (r, g', c')"
        by (simp add: simulateDay_def Let_def)
      from P3 have d3: "distinctIds g3" by simp
      have p3: "poolOk (includedUsers g3) ?pool" using living_pool_ok[of "includedUsers g2"] same by simp
      from eventLoop_touched[OF d3 p3, of fuel fuel env rnd evs 0 c3] obtain S where
        t: "touched S g3 (loopGame ?lr)"
        and s: "\<not> allowNoVictors (options g3) \<longrightarrow> 1 \<le> numAlive g3 \<longrightarrow> 1 \<le> numAlive (loopGame ?lr)"
        by blast
      have P4: "?P g (loopGame ?lr)"
        using P3 t s touched_distinctIds[OF t] touched_aliveSynced[OF t] touched_deadNotBleeding[OF t]
          touched_options[OF t] by auto
      show ?thesis
      proof (cases ?lr)
        case (LoopDone g4 c4)
        with al have e: "endOfDay env rnd g4 c4 = (r, g', c')" by (simp add: afterLoop_def)
        from LoopDone P4 have P4': "?P g g4" by simp
        from endOfDay_keeps[OF e] obtain S' where t': "touched S' g4 g'"
          and s': "\<not> allowNoVictors (options g4) \<longrightarrow> 1 \<le> numAlive g4 \<longrightarrow> 1 \<le> numAlive g'"
          and n': "deadNotBleeding g4 \<longrightarrow> r = DayBegun \<longrightarrow> noneBleeding g'" by blast
        from P4' t' s' n' touched_distinctIds[OF t'] touched_aliveSynced[OF t'] touched_options[OF t']
          touched_deadNotBleeding[OF t']
        show ?thesis by auto
      next
        case (LoopAborted g4 c4)
        with al have "g' = g4" "r = Reply StupidError" by (simp_all add: afterLoop_def)
        with LoopAborted P4 show ?thesis by auto
      next
        case (LoopThrown g4 c4)
        with al have "g' = g4" "r = TypeError" by (simp_all add: afterLoop_def)
        with LoopThrown P4 show ?thesis by auto
      next
        case (LoopUnfinished g4 c4)
        with al have "g' = g4" "r = OutOfFuel" by (simp_all add: afterLoop_def)
        with LoopUnfinished P4 show ?thesis by auto
      qed
    qed
  qed
qed

lemma nextDay_keeps:
  assumes d: "distinctIds g" and nd: "nextDay fuel env rnd (Some g) c = (r, G', c')"
  shows "\<exists>g'. G' = Some g' \<and> distinctIds g' \<and> options g' = options g \<and>
              (aliveSynced g \<longrightarrow> aliveSynced g') \<and>
              (\<not> allowNoVictors (options g) \<longrightarrow> 1 \<le> numAlive g \<longrightarrow> 1 \<le> numAlive g') \<and>
              (deadNotBleeding g \<longrightarrow> deadNotBleeding g') \<and>
              (deadNotBleeding g \<longrightarrow> r = DayBegun \<longrightarrow> noneBleeding g')"
proof (cases "hasCurrentGame g \<and> inProgress g \<and> dayState g = 0")
  case True
  obtain r1 g1 c1 where s: "simulateDay fuel env rnd g c = (r1, g1, c1)"
    by (cases "simulateDay fuel env rnd g c") auto
  with True nd have "G' = Some g1" "r = r1" by (simp_all add: nextDay_def)
  with simulateDay_keeps[OF d s] show ?thesis by simp
next
  case False
  with nd have "(G' = Some g \<or> G' = Some (g\<lparr>interval := True\<rparr>)) \<and> r \<noteq> DayBegun"
    by (auto simp: nextDay_def split: if_splits)
  with d show ?thesis
    by (auto simp: distinctIds_def aliveSynced_def deadNotBleeding_def)
qed

text \<open>A reveal step at most reorders the players.\<close>

lemma countLiving_mset: "countLiving xs = size (filter_mset p_living (mset xs))"
  by (simp add: countLiving_def flip: mset_filter)

lemma printDay_players:
  "printDay g = (r, g') \<Longrightarrow> mset (includedUsers g') = mset (includedUsers g) \<and> numAlive g' = numAlive g"
  unfolding printDay_def finishDay_def Let_def
  by (auto split: if_splits)

lemma printEvent_players:
  "printEvent g = (r, g') \<Longrightarrow> mset (includedUsers g') = mset (includedUsers g) \<and> numAlive g' = numAlive g"
  unfolding printEvent_def Let_def
  by (auto split: if_splits dest!: printDay_players)

lemma printEvent_keeps:
  assumes "printEvent g = (r, g')"
  shows "(aliveSynced g \<longrightarrow> aliveSynced g') \<and> (distinctIds g \<longrightarrow> distinctIds g') \<and>
         (deadNotBleeding g \<longrightarrow> deadNotBleeding g')"
proof -
  from printEvent_players[OF assms]
  have m: "mset (includedUsers g') = mset (includedUsers g)" and n: "numAlive g' = numAlive g" by auto
  from m have "countLiving (includedUsers g') = countLiving (includedUsers g)"
    by (simp add: countLiving_mset)
  with n have a: "aliveSynced g \<longrightarrow> aliveSynced g'" by (simp add: aliveSynced_def)
  from m have "mset (map p_id (includedUsers g')) = mset (map p_id (includedUsers g))"
    by (metis mset_map)
  then have "distinct (map p_id (includedUsers g')) = distinct (map p_id (includedUsers g))"
    by (rule mset_eq_imp_distinct_iff)
  then have d: "distinctIds g \<longrightarrow> distinctIds g'" by (simp add: distinctIds_def)
  from m have "set (includedUsers g') = set (includedUsers g)" by (rule mset_eq_setD)
  then have b: "deadNotBleeding g \<longrightarrow> deadNotBleeding g'"
    by (simp add: deadNotBleeding_def list_all_iff)
  from a d b show ?thesis by simp
qed

section \<open>The alive counter\<close>

lemma fresh_players_living:
  "countLiving (map (\<lambda>m. Player (fst m) (fst (snd m)) (snd (snd m))) members) = length members"
  by (induction members) (simp_all add: countLiving_def Player_def)

text \<open>
  C1. The alive counter equals the number of players whose living flag is set: this
  holds for a newly created game, and, in a game whose user ids are pairwise different,
  it is kept by every call of \<open>nextDay\<close>, whatever the call returns (a finished or
  aborted day, an exception, or a run cut off by the fuel at any pass of the loop), and
  by every reveal step \<open>printEvent\<close>. The ids stay pairwise different as well.
\<close>

theorem alive_counter_invariant:
  "aliveSynced (freshGame guild (map (\<lambda>m. Player (fst m) (fst (snd m)) (snd (snd m))) members)) \<and>
   (distinctIds g \<and> aliveSynced g \<and> nextDay fuel env rnd (Some g) c = (r, G', c') \<longrightarrow>
      (\<exists>g'. G' = Some g' \<and> aliveSynced g' \<and> distinctIds g')) \<and>
   (distinctIds h \<and> aliveSynced h \<and> printEvent h = (rv, h') \<longrightarrow>
      aliveSynced h' \<and> distinctIds h')"
proof (intro conjI)
  show "aliveSynced (freshGame guild (map (\<lambda>m. Player (fst m) (fst (snd m)) (snd (snd m))) members))"
    by (simp add: aliveSynced_def freshGame_def fresh_players_living)
next
  show "distinctIds g \<and> aliveSynced g \<and> nextDay fuel env rnd (Some g) c = (r, G', c') \<longrightarrow>
      (\<exists>g'. G' = Some g' \<and> aliveSynced g' \<and> distinctIds g')"
    using nextDay_keeps[of g fuel env rnd c r G' c'] by blast
next
  show "distinctIds h \<and> aliveSynced h \<and> printEvent h = (rv, h') \<longrightarrow>
      aliveSynced h' \<and> distinctIds h'"
    using printEvent_keeps[of h rv h'] by blast
qed

text \<open>
  The first day of the two-player game with every draw 0: both players die, one after
  the other, and the counter ends at 0; the first reveal step then shows the first event.
\<close>

theorem alive_counter_invariant_example:
  "distinctIds exampleGame \<and> aliveSynced exampleGame \<and>
   nextDay 5 exampleEnv (draws []) (Some exampleGame) 0 =
     (DayBegun,
      Some (exampleGame
        \<lparr>includedUsers :=
            [(Player 1 ''a'' ''u'')\<lparr>p_living := False, p_rank := 2, p_state := ''dead''\<rparr>,
             (Player 2 ''b'' ''v'')\<lparr>p_living := False, p_state := ''dead''\<rparr>],
          dayNum := 1, dayState := 2,
          dayEvents := [\<lparr>fe_message = ''B'', fe_icons = [''u?size=32'']\<rparr>,
                        \<lparr>fe_message = ''B'', fe_icons = [''v?size=32'']\<rparr>],
          numAlive := 0, interval := True\<rparr>),
      4) \<and>
   printEvent (exampleGame
        \<lparr>includedUsers :=
            [(Player 1 ''a'' ''u'')\<lparr>p_living := False, p_rank := 2, p_state := ''dead''\<rparr>,
             (Player 2 ''b'' ''v'')\<lparr>p_living := False, p_state := ''dead''\<rparr>],
          dayNum := 1, dayState := 2,
          dayEvents := [\<lparr>fe_message = ''B'', fe_icons = [''u?size=32'']\<rparr>,
                        \<lparr>fe_message = ''B'', fe_icons = [''v?size=32'']\<rparr>],
          numAlive := 0, interval := True\<rparr>) =
     (Revealed \<lparr>fe_message = ''B'', fe_icons = [''u?size=32'']\<rparr>,
      exampleGame
        \<lparr>includedUsers :=
            [(Player 1 ''a'' ''u'')\<lparr>p_living := False, p_rank := 2, p_state := ''dead''\<rparr>,
             (Player 2 ''b'' ''v'')\<lparr>p_living := False, p_state := ''dead''\<rparr>],
          dayNum := 1, dayState := 3,
          dayEvents := [\<lparr>fe_message = ''B'', fe_icons = [''u?size=32'']\<rparr>,
                        \<lparr>fe_message = ''B'', fe_icons = [''v?size=32'']\<rparr>],
          numAlive := 0, interval := True\<rparr>) \<and>
   aliveSynced (exampleGame
        \<lparr>includedUsers :=
            [(Player 1 ''a'' ''u'')\<lparr>p_living := False, p_rank := 2, p_state := ''dead''\<rparr>,
             (Player 2 ''b'' ''v'')\<lparr>p_living := False, p_state := ''dead''\<rparr>],
          dayNum := 1, dayState := 3,
          dayEvents := [\<lparr>fe_message = ''B'', fe_icons = [''u?size=32'']\<rparr>,
                        \<lparr>fe_message = ''B'', fe_icons = [''v?size=32'']\<rparr>],
          numAlive := 0, interval := True\<rparr>)"
proof -
  let ?g' = "exampleGame
        \<lparr>includedUsers :=
            [(Player 1 ''a'' ''u'')\<lparr>p_living := False, p_rank := 2, p_state := ''dead''\<rparr>,
             (Player 2 ''b'' ''v'')\<lparr>p_living := False, p_state := ''dead''\<rparr>],
          dayNum := 1, dayState := 2,
          dayEvents := [\<lparr>fe_message = ''B'', fe_icons = [''u?size=32'']\<rparr>,
                        \<lparr>fe_message = ''B'', fe_icons = [''v?size=32'']\<rparr>],
          numAlive := 0, interval := True\<rparr>"
  let ?g'' = "exampleGame
        \<lparr>includedUsers :=
            [(Player 1 ''a'' ''u'')\<lparr>p_living := False, p_rank := 2, p_state := ''dead''\<rparr>,
             (Player 2 ''b'' ''v'')\<lparr>p_living := False, p_state := ''dead''\<rparr>],
          dayNum := 1, dayState := 3,
          dayEvents := [\<lparr>fe_message = ''B'', fe_icons = [''u?size=32'']\<rparr>,
                        \<lparr>fe_message = ''B'', fe_icons = [''v?size=32'']\<rparr>],
          numAlive := 0, interval := True\<rparr>"
  let ?e = "\<lparr>fe_message = ''B'', fe_icons = [''u?size=32'']\<rparr>"
  have d: "distinctIds exampleGame" by code_simp
  have a: "aliveSynced exampleGame" by code_simp
  have n: "nextDay 5 exampleEnv (draws []) (Some exampleGame) 0 = (DayBegun, Some ?g', 4)"
    by code_simp
  have d': "distinctIds ?g'" by code_simp
  have a': "aliveSynced ?g'" by code_simp
  have p: "printEvent ?g' = (Revealed ?e, ?g'')" by code_simp
  have t: "aliveSynced (freshGame ''G'' (map (\<lambda>m. Player (fst m) (fst (snd m)) (snd (snd m))) [])) \<and>
           (distinctIds exampleGame \<and> aliveSynced exampleGame \<and>
            nextDay 5 exampleEnv (draws []) (Some exampleGame) 0 = (DayBegun, Some ?g', 4) \<longrightarrow>
              (\<exists>g'. Some ?g' = Some g' \<and> aliveSynced g' \<and> distinctIds g')) \<and>
           (distinctIds ?g' \<and> aliveSynced ?g' \<and> printEvent ?g' = (Revealed ?e, ?g'') \<longrightarrow>
              aliveSynced ?g'' \<and> distinctIds ?g'')"
    by (rule alive_counter_invariant)
  from t d a n d' a' p show ?thesis by simp
qed

section \<open>No day without a survivor\<close>

text \<open>
  C3. With "allow no victors" off, ids pairwise different and the alive counter in step
  with the flags, a day that starts with at least one living player never leaves none:
  at least one player is living in the state that \<open>nextDay\<close> returns, for every
  amount of fuel (so at every pass of the loop) and every result. The selector accepts a
  template only if the alive counter less the deaths it deals stays at 1 or more.
\<close>

theorem no_victors_disabled_keeps_survivor:
  "(distinctIds g \<and> aliveSynced g \<and> \<not> allowNoVictors (options g) \<and>
    1 \<le> countLiving (includedUsers g) \<and> nextDay fuel env rnd (Some g) c = (r, G', c') \<longrightarrow>
      (\<exists>g'. G' = Some g' \<and> 1 \<le> countLiving (includedUsers g'))) \<and>
   (\<not> allowNoVictors (options g) \<and>
    selectEvent redraws rnd g userEventPool userPool loop c =
      Accepted eventTry numVictim numAttacker ts c1 \<longrightarrow>
      1 \<le> numAlive g - ((if s_outcome (ev_victim eventTry) = ''dies'' then numVictim else 0) +
                         (if s_outcome (ev_attacker eventTry) = ''dies'' then numAttacker else 0)))"
proof (rule conjI)
  show "distinctIds g \<and> aliveSynced g \<and> \<not> allowNoVictors (options g) \<and>
    1 \<le> countLiving (includedUsers g) \<and> nextDay fuel env rnd (Some g) c = (r, G', c') \<longrightarrow>
      (\<exists>g'. G' = Some g' \<and> 1 \<le> countLiving (includedUsers g'))"
  proof
    assume h: "distinctIds g \<and> aliveSynced g \<and> \<not> allowNoVictors (options g) \<and>
      1 \<le> countLiving (includedUsers g) \<and> nextDay fuel env rnd (Some g) c = (r, G', c')"
    then have d: "distinctIds g" and n: "nextDay fuel env rnd (Some g) c = (r, G', c')" by simp_all
    from nextDay_keeps[OF d n] obtain g' where g': "G' = Some g'"
      and s: "aliveSynced g \<longrightarrow> aliveSynced g'"
      and k: "\<not> allowNoVictors (options g) \<longrightarrow> 1 \<le> numAlive g \<longrightarrow> 1 \<le> numAlive g'" by blast
    from h have "1 \<le> numAlive g" by (simp add: aliveSynced_def)
    with h s k have "1 \<le> numAlive g'" "aliveSynced g'" by simp_all
    then have "1 \<le> countLiving (includedUsers g')" by (simp add: aliveSynced_def)
    with g' show "\<exists>g'. G' = Some g' \<and> 1 \<le> countLiving (includedUsers g')" by simp
  qed
next
  show "\<not> allowNoVictors (options g) \<and>
    selectEvent redraws rnd g userEventPool userPool loop c =
      Accepted eventTry numVictim numAttacker ts c1 \<longrightarrow>
      1 \<le> numAlive g - ((if s_outcome (ev_victim eventTry) = ''dies'' then numVictim else 0) +
                         (if s_outcome (ev_attacker eventTry) = ''dies'' then numAttacker else 0))"
    using selectEvent_AcceptedD[of redraws rnd g userEventPool userPool loop c eventTry
            numVictim numAttacker ts c1]
      allDeadCheck_False[of g eventTry numVictim numAttacker]
    by blast
qed

theorem no_victors_disabled_keeps_survivor_example:
  "distinctIds (exampleGame\<lparr>options := (options exampleGame)\<lparr>allowNoVictors := False\<rparr>\<rparr>) \<and>
   aliveSynced (exampleGame\<lparr>options := (options exampleGame)\<lparr>allowNoVictors := False\<rparr>\<rparr>) \<and>
   \<not> allowNoVictors (options (exampleGame\<lparr>options := (options exampleGame)\<lparr>allowNoVictors := False\<rparr>\<rparr>)) \<and>
   1 \<le> countLiving (includedUsers (exampleGame\<lparr>options := (options exampleGame)\<lparr>allowNoVictors := False\<rparr>\<rparr>)) \<and>
   nextDay 5 exampleEnv (draws [0, 0, 2 ^ 52])
      (Some (exampleGame\<lparr>options := (options exampleGame)\<lparr>allowNoVictors := False\<rparr>\<rparr>)) 0 =
     (DayBegun,
      Some (exampleGame
        \<lparr>options := (options exampleGame)\<lparr>allowNoVictors := False\<rparr>,
          includedUsers :=
            [(Player 1 ''a'' ''u'')\<lparr>p_living := False, p_rank := 2, p_state := ''dead''\<rparr>,
             Player 2 ''b'' ''v''],
          dayNum := 1, dayState := 2,
          dayEvents := [\<lparr>fe_message = ''B'', fe_icons = [''u?size=32'']\<rparr>,
                        \<lparr>fe_message = ''H'', fe_icons = [''v?size=32'']\<rparr>],
          numAlive := 1, interval := True\<rparr>),
      4) \<and>
   selectEvent 1 (draws [0, 0, 2 ^ 52]) (exampleGame\<lparr>options := (options exampleGame)\<lparr>allowNoVictors := False\<rparr>\<rparr>)
      [Some (simpleEvent ''B'' 1 ''dies'' 0 ''nothing'')] [0, 1] 1 0 =
     Accepted (simpleEvent ''B'' 1 ''dies'' 0 ''nothing'') 1 0 [] 1 \<and>
   1 \<le> countLiving
          [(Player 1 ''a'' ''u'')\<lparr>p_living := False, p_rank := 2, p_state := ''dead''\<rparr>,
           Player 2 ''b'' ''v'']"
proof -
  let ?g = "exampleGame\<lparr>options := (options exampleGame)\<lparr>allowNoVictors := False\<rparr>\<rparr>"
  let ?g' = "exampleGame
        \<lparr>options := (options exampleGame)\<lparr>allowNoVictors := False\<rparr>,
          includedUsers :=
            [(Player 1 ''a'' ''u'')\<lparr>p_living := False, p_rank := 2, p_state := ''dead''\<rparr>,
             Player 2 ''b'' ''v''],
          dayNum := 1, dayState := 2,
          dayEvents := [\<lparr>fe_message = ''B'', fe_icons = [''u?size=32'']\<rparr>,
                        \<lparr>fe_message = ''H'', fe_icons = [''v?size=32'']\<rparr>],
          numAlive := 1, interval := True\<rparr>"
  let ?B = "simpleEvent ''B'' 1 ''dies'' 0 ''nothing''"
  have d: "distinctIds ?g" by code_simp
  have a: "aliveSynced ?g" by code_simp
  have v: "\<not> allowNoVictors (options ?g)" by simp
  have l: "1 \<le> countLiving (includedUsers ?g)" by code_simp
  have n: "nextDay 5 exampleEnv (draws [0, 0, 2 ^ 52]) (Some ?g) 0 = (DayBegun, Some ?g', 4)"
    by code_simp
  have s: "selectEvent 1 (draws [0, 0, 2 ^ 52]) ?g [Some ?B] [0, 1] 1 0 = Accepted ?B 1 0 [] 1"
    by code_simp
  have t: "(distinctIds ?g \<and> aliveSynced ?g \<and> \<not> allowNoVictors (options ?g) \<and>
            1 \<le> countLiving (includedUsers ?g) \<and>
            nextDay 5 exampleEnv (draws [0, 0, 2 ^ 52]) (Some ?g) 0 = (DayBegun, Some ?g', 4) \<longrightarrow>
              (\<exists>g'. Some ?g' = Some g' \<and> 1 \<le> countLiving (includedUsers g'))) \<and>
           (\<not> allowNoVictors (options ?g) \<and>
            selectEvent 1 (draws [0, 0, 2 ^ 52]) ?g [Some ?B] [0, 1] 1 0 = Accepted ?B 1 0 [] 1 \<longrightarrow>
              1 \<le> numAlive ?g - ((if s_outcome (ev_victim ?B) = ''dies'' then 1 else 0) +
                                  (if s_outcome (ev_attacker ?B) = ''dies'' then 0 else 0)))"
    by (rule no_victors_disabled_keeps_survivor)
  from t d a v l n s show ?thesis by simp
qed

section \<open>The bleeding flags after a completed day\<close>




section \<open>The failure after a hundred rejected draws\<close>






text \<open>
  A whole day that ends so: with "allow no victors" off and every draw 0, the first
  bloodbath event kills the first of two players; the same template is then drawn and
  rejected a hundred times, and the day fails with the state of the day back at 0, the
  death and its event kept.
\<close>

lemma aborted_day_keeps_earlier_effects:
  "nextDay 200 exampleEnv (draws [])
      (Some (exampleGame\<lparr>options := (options exampleGame)\<lparr>allowNoVictors := False\<rparr>\<rparr>)) 0 =
     (Reply StupidError,
      Some (exampleGame
        \<lparr>options := (options exampleGame)\<lparr>allowNoVictors := False\<rparr>,
          includedUsers :=
            [(Player 1 ''a'' ''u'')\<lparr>p_living := False, p_rank := 2, p_state := ''dead''\<rparr>,
             Player 2 ''b'' ''v''],
          dayNum := 1, dayState := 0,
          dayEvents := [\<lparr>fe_message = ''B'', fe_icons = [''u?size=32'']\<rparr>],
          numAlive := 1\<rparr>),
      103)"
  by code_simp


text \<open>
  The two early \<open>continue\<close>s come before the test of the counter. With an empty
  template set every draw is out of range, so the loop never reaches the test: whatever
  the fuel, it is still running, with the game unchanged.
\<close>

lemma empty_template_set_never_fails:
  "eventLoop n redraws env rnd g [] (u # us) loop c = LoopUnfinished g (c + n)"
proof (induction n arbitrary: loop c)
  case 0
  then show ?case by simp
next
  case (Suc n)
  have "selectEvent redraws rnd g [] (u # us) (loop + 1) c = Rejected (teams g) (c + 1)"
    by (simp add: selectEvent_def random_index_def)
  with Suc.IH[of "loop + 1" "c + 1"] show ?case by simp
qed

end
